theory Spec2Isabelle
  imports Complex_Main "HOL-Library.Word"
begin

unbundle bit_operations_syntax

section \<open>The recovery console's input dispatcher (ui.cpp)\<close>

text \<open>
  A shallow embedding of \<^verbatim>\<open>ui.cpp\<close>. Every member function of \<^verbatim>\<open>RecoveryUI\<close> becomes
  a function on a record of the object's fields. A critical section (between
  \<^verbatim>\<open>pthread_mutex_lock\<close> and \<^verbatim>\<open>pthread_mutex_unlock\<close>) is one atomic step. Calls into
  collaborators (renderer, dialog, volume manager, reboot, thread creation, condition
  variable) and calls of the overridable policy hooks are appended to the field
  \<open>calls\<close>, oldest first. An array access whose index
  is outside the array is undefined behaviour in C++; the model returns the value
  \<open>Inl (Out_of_bounds a i)\<close> there and nothing is said about what follows.
\<close>

subsection \<open>Constants of the platform headers\<close>

text \<open>The input ABI, \<^verbatim>\<open><linux/input.h>\<close>.\<close>

definition EV_SYN :: int where "EV_SYN = 0"
definition EV_KEY :: int where "EV_KEY = 1"
definition EV_REL :: int where "EV_REL = 2"
definition EV_ABS :: int where "EV_ABS = 3"
definition SYN_MT_REPORT :: int where "SYN_MT_REPORT = 2"
definition REL_Y :: int where "REL_Y = 1"
definition ABS_MT_POSITION_X :: int where "ABS_MT_POSITION_X = 53"
definition ABS_MT_POSITION_Y :: int where "ABS_MT_POSITION_Y = 54"
definition KEY_UP :: int where "KEY_UP = 103"
definition KEY_DOWN :: int where "KEY_DOWN = 108"
definition KEY_VOLUMEDOWN :: int where "KEY_VOLUMEDOWN = 114"
definition KEY_VOLUMEUP :: int where "KEY_VOLUMEUP = 115"
definition KEY_POWER :: int where "KEY_POWER = 116"
definition KEY_BACK :: int where "KEY_BACK = 158"
definition BTN_TOUCH :: int where "BTN_TOUCH = 330"
definition KEY_MAX :: int where "KEY_MAX = 767"

text \<open>\<^verbatim>\<open><errno.h>\<close> and \<^verbatim>\<open><poll.h>\<close>.\<close>

definition ETIMEDOUT :: int where "ETIMEDOUT = 110"
definition POLLIN :: "16 word" where "POLLIN = 1"

text \<open>\<^verbatim>\<open>#define UI_WAIT_KEY_TIMEOUT_SEC 120\<close>\<close>

definition UI_WAIT_KEY_TIMEOUT_SEC :: "32 word" where "UI_WAIT_KEY_TIMEOUT_SEC = 120"

named_theorems input_consts \<open>values of the header constants\<close>

lemmas header_values [input_consts] =
  EV_SYN_def EV_KEY_def EV_REL_def EV_ABS_def SYN_MT_REPORT_def REL_Y_def
  ABS_MT_POSITION_X_def ABS_MT_POSITION_Y_def KEY_UP_def KEY_DOWN_def
  KEY_VOLUMEDOWN_def KEY_VOLUMEUP_def KEY_POWER_def KEY_BACK_def BTN_TOUCH_def
  KEY_MAX_def ETIMEDOUT_def POLLIN_def UI_WAIT_KEY_TIMEOUT_SEC_def

subsection \<open>Data\<close>

text \<open>
  \<^verbatim>\<open>struct input_event\<close>: \<^verbatim>\<open>__u16 type; __u16 code; __s32 value\<close> (the time stamp is
  never read). The value is read as a signed number with \<^const>\<open>sint\<close>.
\<close>

record input_event =
  ev_type :: "16 word"
  ev_code :: "16 word"
  ev_value :: "32 word"

datatype KeyAction = TOGGLE | REBOOT | IGNORE | ENQUEUE | MOUNT_SYSTEM

datatype fault = Out_of_bounds string int

text \<open>
  Calls that leave the class, and calls of its policy hooks \<^verbatim>\<open>CheckKey\<close>,
  \<^verbatim>\<open>NextCheckKeyIsLong\<close> and \<^verbatim>\<open>KeyLongPress\<close>, in the order they are made.
\<close>

datatype call =
    Call_NextCheckKeyIsLong bool
  | Call_CheckKey int
  | Call_KeyLongPress int
  | Call_ShowText bool
  | Call_vold_unmount_all
  | Call_android_reboot
  | Call_ensure_path_mounted string
  | Call_Print string
  | Call_DialogShowInfo string
  | Call_DialogDismiss
  | Call_cond_signal
  | Call_start_key_timer int int
  | Call_ev_del_fd int
  | Call_client_Close
  | Call_ev_init
  | Call_ServerInit
  | Call_ev_add_fd
  | Call_start_input_thread

text \<open>
  The fields of \<^verbatim>\<open>RecoveryUI\<close>, with the names the source uses. \<open>key_queue\<close> is the
  array \<^verbatim>\<open>key_queue[]\<close>: its length is the capacity
  \<^verbatim>\<open>sizeof(key_queue) / sizeof(key_queue[0])\<close>, fixed by the declaration in the header.
  \<open>key_pressed\<close> is the array \<^verbatim>\<open>key_pressed[]\<close>, read and written only at indices that
  the model has checked to lie in \<open>[0, KEY_MAX]\<close>.
  Modelled from the spec: the array is declared in \<^verbatim>\<open>ui.h\<close>, which is not part of the
  source at hand; the spec gives \<open>[0, KEY_MAX]\<close> as its index range and a boolean
  ("currently held") as its cell, so a stored \<^verbatim>\<open>updown\<close> is kept as \<open>updown \<noteq> 0\<close>.
  \<open>rel_sum\<close> takes an arbitrary \<^verbatim>\<open>__s32\<close> at each addition and is a 32-bit word that
  wraps; the counters, which move by one, are integers.
  The last four fields are the renderer's: what \<^verbatim>\<open>DialogShowing()\<close>,
  \<^verbatim>\<open>DialogDismissable()\<close> and \<^verbatim>\<open>IsTextVisible()\<close> answer, and the log of calls.
\<close>

record ui_state =
  key_queue :: "int list"
  key_queue_len :: int
  key_pressed :: "int \<Rightarrow> bool"
  key_last_down :: int
  key_long_press :: bool
  key_down_count :: int
  consecutive_power_keys :: int
  consecutive_alternate_keys :: int
  last_key :: int
  in_touch :: int
  touch_x :: int
  touch_y :: int
  old_x :: int
  old_y :: int
  diff_x :: int
  diff_y :: int
  min_x_swipe_px :: int
  min_y_swipe_px :: int
  max_x_touch :: int
  max_y_touch :: int
  mt_count :: int
  rel_sum :: "32 word"
  v_changed :: int
  dialog_showing :: bool
  dialog_dismissable :: bool
  text_visible :: bool
  calls :: "call list"

definition log_call :: "call \<Rightarrow> ui_state \<Rightarrow> ui_state" where
  "log_call c s = s\<lparr>calls := calls s @ [c]\<rparr>"

subsection \<open>The collaborators\<close>

text \<open>
  Modelled from the spec: the dialog and the renderer live in \<^verbatim>\<open>screen_ui.cpp\<close>, which
  is not part of the source at hand. The spec gives their surface:
  \<^verbatim>\<open>dialog.Showing()\<close>, \<^verbatim>\<open>dialog.Dismissable()\<close>, \<^verbatim>\<open>dialog.Dismiss()\<close>,
  \<^verbatim>\<open>dialog.ShowInfo(text)\<close>, \<^verbatim>\<open>renderer.ShowText(bool)\<close>, \<^verbatim>\<open>renderer.IsTextVisible()\<close>.
  Dismissing removes the dialog, showing puts one up; none of them touches the key queue.
\<close>

definition DialogShowing :: "ui_state \<Rightarrow> bool" where
  "DialogShowing s = dialog_showing s"

definition DialogDismissable :: "ui_state \<Rightarrow> bool" where
  "DialogDismissable s = dialog_dismissable s"

definition DialogDismiss :: "ui_state \<Rightarrow> ui_state" where
  "DialogDismiss s = log_call Call_DialogDismiss (s\<lparr>dialog_showing := False\<rparr>)"

definition DialogShowInfo :: "string \<Rightarrow> ui_state \<Rightarrow> ui_state" where
  "DialogShowInfo text s = log_call (Call_DialogShowInfo text) (s\<lparr>dialog_showing := True\<rparr>)"

definition IsTextVisible :: "ui_state \<Rightarrow> bool" where
  "IsTextVisible s = text_visible s"

definition ShowText :: "bool \<Rightarrow> ui_state \<Rightarrow> ui_state" where
  "ShowText visible s = log_call (Call_ShowText visible) (s\<lparr>text_visible := visible\<rparr>)"

subsection \<open>The key queue\<close>

text \<open>
  \<^verbatim>\<open>EnqueueKey\<close>, lines 369-383. The store \<^verbatim>\<open>key_queue[key_queue_len++] = key_code\<close> is
  guarded from above by \<^verbatim>\<open>key_queue_len < queue_max\<close>; from below there is no guard.
\<close>

definition EnqueueKey :: "int \<Rightarrow> ui_state \<Rightarrow> fault + ui_state" where
  "EnqueueKey key_code s =
     (if DialogShowing s then
        (if DialogDismissable s then Inr (DialogDismiss s) else Inr s)
      else
        (let queue_max = int (length (key_queue s)) in
         if key_queue_len s < queue_max then
           (if key_queue_len s < 0 then Inl (Out_of_bounds ''key_queue'' (key_queue_len s))
            else Inr (log_call Call_cond_signal
                   (s\<lparr>key_queue := (key_queue s)[nat (key_queue_len s) := key_code],
                      key_queue_len := key_queue_len s + 1\<rparr>)))
         else Inr s))"

text \<open>
  \<^verbatim>\<open>CancelWaitKey\<close>, lines 396-403: the store \<^verbatim>\<open>key_queue[key_queue_len] = -2\<close> has no
  guard at all.
\<close>

definition CancelWaitKey :: "ui_state \<Rightarrow> fault + ui_state" where
  "CancelWaitKey s =
     (if key_queue_len s < 0 \<or> int (length (key_queue s)) \<le> key_queue_len s
      then Inl (Out_of_bounds ''key_queue'' (key_queue_len s))
      else Inr (log_call Call_cond_signal
             (s\<lparr>key_queue := (key_queue s)[nat (key_queue_len s) := - 2],
                key_queue_len := key_queue_len s + 1\<rparr>)))"

text \<open>\<^verbatim>\<open>FlushKeys\<close>, lines 468-472.\<close>

definition FlushKeys :: "ui_state \<Rightarrow> ui_state" where
  "FlushKeys s = s\<lparr>key_queue_len := 0\<rparr>"

text \<open>\<^verbatim>\<open>NotifyVolumesChanged\<close> and \<^verbatim>\<open>VolumesChanged\<close>, lines 517-526.\<close>

definition NotifyVolumesChanged :: "ui_state \<Rightarrow> ui_state" where
  "NotifyVolumesChanged s = s\<lparr>v_changed := 1\<rparr>"

definition VolumesChanged :: "ui_state \<Rightarrow> bool \<times> ui_state" where
  "VolumesChanged s =
     (let ret = v_changed s;
          s1 = (if v_changed s > 0 then s\<lparr>v_changed := 0\<rparr> else s)
      in (ret = 1, s1))"

text \<open>\<^verbatim>\<open>IsKeyPressed\<close>, lines 460-466.\<close>

definition IsKeyPressed :: "int \<Rightarrow> ui_state \<Rightarrow> fault + bool" where
  "IsKeyPressed key s =
     (if 0 \<le> key \<and> key \<le> KEY_MAX then Inr (key_pressed s key)
      else Inl (Out_of_bounds ''key_pressed'' key))"

subsection \<open>Sequencing steps that may fault\<close>

definition and_then :: "fault + 'a \<Rightarrow> ('a \<Rightarrow> fault + 'b) \<Rightarrow> fault + 'b" where
  "and_then m f = (case m of Inl e \<Rightarrow> Inl e | Inr x \<Rightarrow> f x)"

subsection \<open>What the build and the device provide\<close>

text \<open>
  Values that the source takes from headers and libraries outside \<^verbatim>\<open>ui.cpp\<close>:
  \<open>abs_max fd axis\<close> is \<^verbatim>\<open>abs_store[2]\<close> after \<^verbatim>\<open>ioctl(fd, EVIOCGABS(axis), abs_store)\<close>
  (0 when the ioctl fails, the block being zeroed before); \<open>gr_fb_width\<close> and
  \<open>gr_fb_height\<close> are the framebuffer's size; \<open>touch_scale value max dim\<close> is the
  single-precision expression \<^verbatim>\<open>((float)value / (float)max) * dim\<close> converted to
  \<^verbatim>\<open>int\<close>; \<open>kRefresh\<close> is \<^verbatim>\<open>Device::kRefresh\<close>; \<open>no_recovery_mount\<close> tells whether
  \<^verbatim>\<open>NO_RECOVERY_MOUNT\<close> is defined.
\<close>

record platform =
  abs_max :: "int \<Rightarrow> int \<Rightarrow> int"
  gr_fb_width :: int
  gr_fb_height :: int
  touch_scale :: "int \<Rightarrow> int \<Rightarrow> int \<Rightarrow> int"
  kRefresh :: int
  no_recovery_mount :: bool

subsection \<open>The default policy\<close>

text \<open>\<^verbatim>\<open>NextCheckKeyIsLong\<close> and \<^verbatim>\<open>KeyLongPress\<close>, lines 511-515: hooks with empty bodies.\<close>

definition NextCheckKeyIsLong :: "bool \<Rightarrow> ui_state \<Rightarrow> ui_state" where
  "NextCheckKeyIsLong is_long_press s = log_call (Call_NextCheckKeyIsLong is_long_press) s"

definition KeyLongPress :: "int \<Rightarrow> ui_state \<Rightarrow> ui_state" where
  "KeyLongPress key s = log_call (Call_KeyLongPress key) s"

text \<open>\<^verbatim>\<open>CheckKey\<close>, lines 480-509. The three early returns leave before line 506.\<close>

definition CheckKey :: "int \<Rightarrow> ui_state \<Rightarrow> fault + (KeyAction \<times> ui_state)" where
  "CheckKey key s0 =
     (let s = log_call (Call_CheckKey key) s0 in
      and_then (IsKeyPressed KEY_POWER s) (\<lambda>power_held.
        if power_held \<and> key = KEY_VOLUMEUP then Inr (TOGGLE, s)
        else
          let s1 = (if key = KEY_POWER
                    then s\<lparr>consecutive_power_keys := consecutive_power_keys s + 1\<rparr>
                    else s\<lparr>consecutive_power_keys := 0\<rparr>)
          in
          if key = KEY_POWER \<and> consecutive_power_keys s1 \<ge> 7 then Inr (REBOOT, s1)
          else if (key = KEY_VOLUMEUP \<and> (last_key s1 = KEY_VOLUMEDOWN \<or> last_key s1 = - 1)) \<or>
                  (key = KEY_VOLUMEDOWN \<and> (last_key s1 = KEY_VOLUMEUP \<or> last_key s1 = - 1))
          then
            (let s2 = s1\<lparr>consecutive_alternate_keys := consecutive_alternate_keys s1 + 1\<rparr> in
             if consecutive_alternate_keys s2 \<ge> 7
             then Inr (MOUNT_SYSTEM, s2\<lparr>consecutive_alternate_keys := 0\<rparr>)
             else Inr (ENQUEUE, s2\<lparr>last_key := key\<rparr>))
          else Inr (ENQUEUE, s1\<lparr>consecutive_alternate_keys := 0, last_key := key\<rparr>)))"

subsection \<open>The key pipeline\<close>

text \<open>
  \<^verbatim>\<open>process_key\<close>, the critical section of lines 216-236. The result carries the two
  locals \<^verbatim>\<open>register_key\<close> and \<^verbatim>\<open>long_press\<close>. The timer thread started on a down edge
  is logged with its key code and its snapshot of \<^verbatim>\<open>key_down_count\<close>; its body is
  \<open>time_key\<close> below.
\<close>

definition process_key_locked :: "int \<Rightarrow> int \<Rightarrow> ui_state \<Rightarrow> fault + (bool \<times> bool \<times> ui_state)" where
  "process_key_locked key_code updown s =
     (if key_code < 0 \<or> KEY_MAX < key_code then Inl (Out_of_bounds ''key_pressed'' key_code)
      else
        let s1 = s\<lparr>key_pressed := (key_pressed s)(key_code := (updown \<noteq> 0))\<rparr> in
        if updown \<noteq> 0 then
          (let s2 = s1\<lparr>key_down_count := key_down_count s1 + 1,
                       key_last_down := key_code,
                       key_long_press := False\<rparr>
           in Inr (False, False, log_call (Call_start_key_timer key_code (key_down_count s2)) s2))
        else if key_last_down s1 = key_code
          then Inr (True, key_long_press s1, s1\<lparr>key_last_down := - 1\<rparr>)
          else Inr (False, False, s1\<lparr>key_last_down := - 1\<rparr>))"

text \<open>\<^verbatim>\<open>process_key\<close>, lines 212-265.\<close>

definition process_key :: "platform \<Rightarrow> int \<Rightarrow> int \<Rightarrow> ui_state \<Rightarrow> fault + ui_state" where
  "process_key p key_code updown s =
     and_then (process_key_locked key_code updown s) (\<lambda>(register_key, long_press, s1).
       if register_key then
         and_then (CheckKey key_code (NextCheckKeyIsLong long_press s1)) (\<lambda>(action, s2).
           case action of
             IGNORE \<Rightarrow> Inr s2
           | TOGGLE \<Rightarrow> Inr (ShowText (\<not> IsTextVisible s2) s2)
           | REBOOT \<Rightarrow> Inr (log_call Call_android_reboot (log_call Call_vold_unmount_all s2))
           | ENQUEUE \<Rightarrow> EnqueueKey key_code s2
           | MOUNT_SYSTEM \<Rightarrow>
               (if no_recovery_mount p then Inr s2
                else Inr (log_call (Call_Print ''Mounted /system.'')
                       (log_call (Call_ensure_path_mounted ''/system'') s2))))
       else Inr s1)"

text \<open>\<^verbatim>\<open>time_key\<close>, lines 274-283, after its sleep of 750 ms.\<close>

definition time_key :: "int \<Rightarrow> int \<Rightarrow> ui_state \<Rightarrow> ui_state" where
  "time_key key_code count s =
     (if key_last_down s = key_code \<and> key_down_count s = count
      then KeyLongPress key_code (s\<lparr>key_long_press := True\<rparr>)
      else s)"

subsection \<open>The gesture recogniser\<close>

text \<open>\<^verbatim>\<open>reset_gestures\<close>, lines 295-302.\<close>

definition reset_gestures :: "ui_state \<Rightarrow> ui_state" where
  "reset_gestures s = s\<lparr>diff_x := 0, diff_y := 0, old_x := 0, old_y := 0, touch_x := 0, touch_y := 0\<rparr>"

text \<open>
  \<^verbatim>\<open>process_swipe\<close>, lines 304-367. In the \<^verbatim>\<open>BTN_TOUCH\<close> branch the event's value is
  compared with the key codes \<^verbatim>\<open>KEY_DOWN\<close> and \<^verbatim>\<open>KEY_UP\<close>, as the source does.
\<close>

definition process_swipe :: "platform \<Rightarrow> int \<Rightarrow> input_event \<Rightarrow> ui_state \<Rightarrow> fault + ui_state" where
  "process_swipe p fd ev s0 =
     (let s = (if max_x_touch s0 = 0 \<or> max_y_touch s0 = 0
               then s0\<lparr>max_x_touch := abs_max p fd ABS_MT_POSITION_X,
                       max_y_touch := abs_max p fd ABS_MT_POSITION_Y\<rparr>
               else s0);
          ty = uint (ev_type ev);
          code = uint (ev_code ev);
          val = sint (ev_value ev)
      in
      if ty = EV_KEY \<and> code = BTN_TOUCH then
        (let s1 = (if val = KEY_DOWN then s\<lparr>mt_count := mt_count s + 1\<rparr>
                   else if mt_count s > 0 \<and> val = KEY_UP then s\<lparr>mt_count := mt_count s - 1\<rparr>
                   else s)
         in Inr (if mt_count s1 = 0 then reset_gestures s1 else s1))
      else if ty = EV_SYN then
        (if in_touch s = 0 \<and> code = SYN_MT_REPORT then Inr (reset_gestures s)
         else
           let s1 = s\<lparr>in_touch := 0\<rparr> in
           if diff_y s1 > min_y_swipe_px s1 then
             and_then (EnqueueKey KEY_VOLUMEDOWN s1) (\<lambda>s2. Inr (reset_gestures s2))
           else if diff_y s1 < - min_y_swipe_px s1 then
             and_then (EnqueueKey KEY_VOLUMEUP s1) (\<lambda>s2. Inr (reset_gestures s2))
           else if diff_x s1 > min_x_swipe_px s1 then
             and_then (EnqueueKey KEY_POWER s1) (\<lambda>s2. Inr (reset_gestures s2))
           else if diff_x s1 < - min_x_swipe_px s1 then
             and_then (EnqueueKey KEY_BACK s1) (\<lambda>s2. Inr (reset_gestures s2))
           else Inr s1)
      else if ty = EV_ABS \<and> code = ABS_MT_POSITION_X then
        (let s1 = s\<lparr>in_touch := 1, old_x := touch_x s\<rparr>;
             s2 = s1\<lparr>touch_x := touch_scale p val (max_x_touch s1) (gr_fb_width p)\<rparr>
         in Inr (if old_x s2 \<noteq> 0 then s2\<lparr>diff_x := diff_x s2 + (touch_x s2 - old_x s2)\<rparr> else s2))
      else if ty = EV_ABS \<and> code = ABS_MT_POSITION_Y then
        (let s1 = s\<lparr>in_touch := 1, old_y := touch_y s\<rparr>;
             s2 = s1\<lparr>touch_y := touch_scale p val (max_y_touch s1) (gr_fb_height p)\<rparr>
         in Inr (if old_y s2 \<noteq> 0 then s2\<lparr>diff_y := diff_y s2 + (touch_y s2 - old_y s2)\<rparr> else s2))
      else Inr s)"

subsection \<open>The input callback\<close>

text \<open>
  The \<^verbatim>\<open>EV_REL\<close> branch of \<^verbatim>\<open>input_callback\<close>, lines 174-189: the trackball. The
  comparisons are signed.
\<close>

definition input_callback_rel :: "platform \<Rightarrow> input_event \<Rightarrow> ui_state \<Rightarrow> fault + ui_state" where
  "input_callback_rel p ev s =
     (if uint (ev_code ev) = REL_Y then
        (let s1 = s\<lparr>rel_sum := rel_sum s + ev_value ev\<rparr> in
         if 3 <s rel_sum s1 then
           and_then (process_key p KEY_DOWN 1 s1) (\<lambda>s2.
           and_then (process_key p KEY_DOWN 0 s2) (\<lambda>s3.
           Inr (s3\<lparr>rel_sum := 0\<rparr>)))
         else if rel_sum s1 <s - 3 then
           and_then (process_key p KEY_UP 1 s1) (\<lambda>s2.
           and_then (process_key p KEY_UP 0 s2) (\<lambda>s3.
           Inr (s3\<lparr>rel_sum := 0\<rparr>)))
         else Inr s1)
      else Inr s)"

text \<open>
  \<^verbatim>\<open>input_callback\<close>, lines 160-198. The argument \<open>got\<close> is what \<^verbatim>\<open>ev_get_input\<close>
  delivers: \<open>None\<close> when it returns nonzero. The result carries the return value.
\<close>

definition input_callback :: "platform \<Rightarrow> int \<Rightarrow> input_event option \<Rightarrow> ui_state \<Rightarrow> fault + (int \<times> ui_state)" where
  "input_callback p fd got s =
     (case got of
        None \<Rightarrow> Inr (- 1, s)
      | Some ev \<Rightarrow>
          and_then (process_swipe p fd ev s) (\<lambda>s1.
            if uint (ev_type ev) = EV_SYN then Inr (0, s1)
            else
              and_then (if uint (ev_type ev) = EV_REL then input_callback_rel p ev s1
                        else Inr (s1\<lparr>rel_sum := 0\<rparr>)) (\<lambda>s2.
                if uint (ev_type ev) = EV_KEY \<and> uint (ev_code ev) \<le> KEY_MAX then
                  and_then (process_key p (uint (ev_code ev)) (sint (ev_value ev)) s2)
                    (\<lambda>s3. Inr (0, s3))
                else Inr (0, s2))))"

subsection \<open>The foreground waiter\<close>

text \<open>
  \<^verbatim>\<open>usb_connected\<close>, lines 442-458. The argument is the content of
  \<^verbatim>\<open>/sys/class/android_usb/android0/state\<close> at the time of the call, \<open>None\<close> when
  the file cannot be opened. One byte is read and compared with \<^verbatim>\<open>'C'\<close>.
\<close>

definition usb_connected :: "string option \<Rightarrow> bool" where
  "usb_connected file =
     (case file of
        None \<Rightarrow> False
      | Some bytes \<Rightarrow> (case bytes of [] \<Rightarrow> False | buf # _ \<Rightarrow> buf = CHR ''C''))"

text \<open>
  The end of \<^verbatim>\<open>WaitKey\<close>, lines 432-438: the head of the queue is taken and the rest
  is moved down by \<^verbatim>\<open>memcpy\<close>, which reads the cells \<open>1 .. key_queue_len - 1\<close>.
\<close>

definition WaitKey_take :: "ui_state \<Rightarrow> fault + (int \<times> ui_state)" where
  "WaitKey_take s =
     (if key_queue_len s > 0 then
        (if int (length (key_queue s)) < key_queue_len s
         then Inl (Out_of_bounds ''key_queue'' (key_queue_len s - 1))
         else
           let key = key_queue s ! 0;
               n = nat (key_queue_len s - 1)
           in Inr (key, s\<lparr>key_queue_len := key_queue_len s - 1,
                          key_queue := take n (drop 1 (key_queue s)) @ drop n (key_queue s)\<rparr>))
      else Inr (- 1, s))"

text \<open>
  The two nested loops of \<^verbatim>\<open>WaitKey\<close>, lines 412-430. The caller blocks in
  \<^verbatim>\<open>pthread_cond_timedwait\<close> with the mutex released; what it finds when it wakes is
  given by a list of wake-ups, one per call: the return code and what the other threads
  did to the object in the meantime. When the list is used up and the caller would
  block again, the result is \<open>None\<close>: the call has not returned.
  \<open>sysfs n\<close> is the content of the USB state file at the end of the \<open>n\<close>-th one-second
  slice. \<open>timeouts\<close> is the 32-bit counter, \<open>n\<close> the number of slices finished, \<open>rc\<close>
  the inner loop's return code.
\<close>

type_synonym wake = "int \<times> (ui_state \<Rightarrow> fault + ui_state)"

function WaitKey_loop ::
  "platform \<Rightarrow> (nat \<Rightarrow> string option) \<Rightarrow> wake list \<Rightarrow> 32 word \<Rightarrow> nat \<Rightarrow> int \<Rightarrow> ui_state
     \<Rightarrow> (fault + (int \<times> ui_state)) option" where
  "WaitKey_loop p sysfs ws timeouts n rc s =
     (if key_queue_len s = 0 \<and> rc \<noteq> ETIMEDOUT then
        (case ws of
           [] \<Rightarrow> None
         | w # ws1 \<Rightarrow>
             (case snd w s of
                Inl e \<Rightarrow> Some (Inl e)
              | Inr s1 \<Rightarrow>
                  if fst (VolumesChanged s1) then Some (Inr (kRefresh p, snd (VolumesChanged s1)))
                  else WaitKey_loop p sysfs ws1 timeouts n (fst w) (snd (VolumesChanged s1))))
      else
        (if (timeouts - 1 \<noteq> 0 \<or> usb_connected (sysfs (Suc n))) \<and> key_queue_len s = 0
         then WaitKey_loop p sysfs ws (timeouts - 1) (Suc n) 0 s
         else Some (WaitKey_take s)))"
  by pat_completeness auto
termination
  by (relation "measure (\<lambda>(p, sysfs, ws, timeouts, n, rc, s).
        2 * length ws + (if key_queue_len s = 0 \<and> rc \<noteq> ETIMEDOUT then 0 else 1))")
     (auto simp: ETIMEDOUT_def)

declare WaitKey_loop.simps [simp del]

text \<open>\<^verbatim>\<open>WaitKey\<close>, lines 405-439.\<close>

definition WaitKey ::
  "platform \<Rightarrow> (nat \<Rightarrow> string option) \<Rightarrow> wake list \<Rightarrow> ui_state \<Rightarrow> (fault + (int \<times> ui_state)) option" where
  "WaitKey p sysfs ws s = WaitKey_loop p sysfs ws UI_WAIT_KEY_TIMEOUT_SEC 0 0 s"

subsection \<open>The control socket\<close>

text \<open>
  \<^verbatim>\<open>strchr\<close>: the position of the first occurrence of a character in a C string.
\<close>

definition strchr :: "string \<Rightarrow> char \<Rightarrow> nat option" where
  "strchr s c = (if c \<in> set s then Some (length (takeWhile (\<lambda>x. x \<noteq> c) s)) else None)"

text \<open>
  \<^verbatim>\<open>string_split\<close>, lines 53-68. The result is the list \<^verbatim>\<open>fields[0 .. n]\<close>; the
  returned count \<^verbatim>\<open>n + 1\<close> is its length. \<open>n\<close> is the loop counter.
\<close>

function string_split_from :: "string \<Rightarrow> int \<Rightarrow> int \<Rightarrow> string list" where
  "string_split_from s n maxfields =
     (if n + 1 < maxfields then
        (case strchr s (CHR '' '') of
           None \<Rightarrow> [s]
         | Some i \<Rightarrow> take i s # string_split_from (drop (Suc i) s) (n + 1) maxfields)
      else [s])"
  by pat_completeness auto
termination
  by (relation "measure (\<lambda>(s, n, maxfields). nat (maxfields - n))") auto

declare string_split_from.simps [simp del]

definition string_split :: "string \<Rightarrow> int \<Rightarrow> string list" where
  "string_split s maxfields = string_split_from s 0 maxfields"

text \<open>
  \<^verbatim>\<open>message_socket_client_event\<close>, lines 70-112. \<open>nread\<close> and \<open>buf\<close> are what
  \<^verbatim>\<open>client->Read\<close> delivers: the count and the C string then in the buffer. Whether the
  newline that ends a line sent by the client is still part of that string is decided by
  \<^verbatim>\<open>MessageSocket::Read\<close>, which is not part of the source at hand; the model takes the
  string as it is. The function returns 0 on every path.
\<close>

definition message_socket_client_event ::
  "int \<Rightarrow> 16 word \<Rightarrow> int \<Rightarrow> string \<Rightarrow> ui_state \<Rightarrow> int \<times> ui_state" where
  "message_socket_client_event fd revents nread buf s =
     (if revents AND POLLIN = 0 then (0, s)
      else if nread \<le> 0 then
        (0, log_call Call_client_Close (DialogDismiss (log_call (Call_ev_del_fd fd) s)))
      else
        let fields = string_split buf 3;
            nfields = int (length fields)
        in
        if nfields < 2 then (0, s)
        else if fields ! 0 = ''dialog'' then
          (let s1 = (if fields ! 1 = ''show'' \<and> nfields > 2 then DialogShowInfo (fields ! 2) s else s);
               s2 = (if fields ! 1 = ''dismiss'' then DialogDismiss s1 else s1)
           in (0, s2))
        else (0, s))"

subsection \<open>Construction and start-up\<close>

text \<open>
  The constructor, lines 126-149. \<open>raw\<close> is the storage the object is built in: the
  fields outside the initialiser list keep what it holds.
\<close>

definition RecoveryUI :: "ui_state \<Rightarrow> ui_state" where
  "RecoveryUI raw = raw\<lparr>
     key_queue_len := 0,
     key_last_down := - 1,
     key_long_press := False,
     key_down_count := 0,
     consecutive_power_keys := 0,
     consecutive_alternate_keys := 0,
     last_key := - 1,
     in_touch := 0,
     touch_x := 0,
     touch_y := 0,
     old_x := 0,
     old_y := 0,
     diff_x := 0,
     diff_y := 0,
     min_x_swipe_px := 100,
     min_y_swipe_px := 80,
     max_x_touch := 0,
     max_y_touch := 0,
     mt_count := 0\<rparr>"

text \<open>
  \<^verbatim>\<open>property_get\<close> of libcutils: the property's value, or the default when the
  property is missing or empty. \<^verbatim>\<open>atoi\<close> of libc: leading white space, an optional
  sign, then decimal digits up to the first other character.
\<close>

definition property_get :: "(string \<rightharpoonup> string) \<Rightarrow> string \<Rightarrow> string \<Rightarrow> string" where
  "property_get props key default_value =
     (case props key of
        None \<Rightarrow> default_value
      | Some v \<Rightarrow> if v = [] then default_value else v)"

definition isspace :: "char \<Rightarrow> bool" where
  "isspace c = (c = CHR '' '' \<or> (9 \<le> (of_char c :: nat) \<and> (of_char c :: nat) \<le> 13))"

definition isdigit :: "char \<Rightarrow> bool" where
  "isdigit c = (48 \<le> (of_char c :: nat) \<and> (of_char c :: nat) \<le> 57)"

fun atoi_digits :: "int \<Rightarrow> string \<Rightarrow> int" where
  "atoi_digits acc [] = acc"
| "atoi_digits acc (c # cs) =
     (if isdigit c then atoi_digits (10 * acc + (of_char c - 48)) cs else acc)"

definition atoi :: "string \<Rightarrow> int" where
  "atoi str =
     (case dropWhile isspace str of
        [] \<Rightarrow> 0
      | c # cs \<Rightarrow>
          if c = CHR ''-'' then - atoi_digits 0 cs
          else if c = CHR ''+'' then atoi_digits 0 cs
          else atoi_digits 0 (c # cs))"

text \<open>
  The two products \<^verbatim>\<open>0.5 * screen_density\<close> and \<^verbatim>\<open>0.3 * screen_density\<close> are computed
  in IEEE binary64 and converted to \<^verbatim>\<open>int\<close>, which truncates. A positive binary64
  number is \<open>m / 2 ^ e\<close> with a significand \<open>m\<close> of at most 53 bits. The literal
  \<^verbatim>\<open>0.5\<close> is \<open>1 / 2 ^ 1\<close>; the literal \<^verbatim>\<open>0.3\<close> is the nearest binary64 number,
  \<open>5404319552844595 / 2 ^ 54\<close>. The integer factor is exact in binary64. The product
  \<open>m * d / 2 ^ e\<close> is rounded to 53 significant bits, ties to even:
  \<open>excess_bits N\<close> is the number of low bits of \<open>N\<close> that do not fit, and \<open>round_53 N\<close>
  the nearest number with 53 significant bits.
\<close>

function excess_bits :: "int \<Rightarrow> nat" where
  "excess_bits N = (if N < 2 ^ 53 then 0 else Suc (excess_bits (N div 2)))"
  by pat_completeness auto
termination
  by (relation "measure nat") auto

declare excess_bits.simps [simp del]

definition round_53 :: "int \<Rightarrow> int" where
  "round_53 N =
     (let k = excess_bits N;
          q = N div 2 ^ k;
          r = N mod 2 ^ k
      in (if 2 ^ k < 2 * r \<or> (2 * r = 2 ^ k \<and> odd q) then q + 1 else q) * 2 ^ k)"

definition double_0_5 :: "int \<times> nat" where
  "double_0_5 = (1, 1)"

definition double_0_3 :: "int \<times> nat" where
  "double_0_3 = (5404319552844595, 54)"

text \<open>\<^verbatim>\<open>(int)(c * d)\<close> for a binary64 constant \<open>c = m / 2 ^ e\<close> and an \<^verbatim>\<open>int\<close> \<open>d > 0\<close>.\<close>

definition double_times_to_int :: "int \<times> nat \<Rightarrow> int \<Rightarrow> int" where
  "double_times_to_int c d = round_53 (fst c * d) div 2 ^ snd c"

text \<open>\<^verbatim>\<open>set_min_swipe_lengths\<close>, lines 285-293. \<open>props\<close> is the property store.\<close>

definition set_min_swipe_lengths :: "(string \<rightharpoonup> string) \<Rightarrow> ui_state \<Rightarrow> ui_state" where
  "set_min_swipe_lengths props s =
     (let val = property_get props ''ro.sf.lcd_density'' ''0'';
          screen_density = atoi val
      in if screen_density > 0
         then s\<lparr>min_x_swipe_px := double_times_to_int double_0_5 screen_density,
                min_y_swipe_px := double_times_to_int double_0_3 screen_density\<rparr>
         else s)"

text \<open>\<^verbatim>\<open>Init\<close>, lines 151-157.\<close>

definition Init :: "(string \<rightharpoonup> string) \<Rightarrow> ui_state \<Rightarrow> ui_state" where
  "Init props s =
     log_call Call_start_input_thread
       (log_call Call_ev_add_fd
         (log_call Call_ServerInit
           (log_call Call_ev_init (set_min_swipe_lengths props s))))"

subsection \<open>Observing the pipeline\<close>

text \<open>
  A key is registered when the pipeline hands it to the policy: the registered keys are
  the arguments of the logged \<^verbatim>\<open>CheckKey\<close> calls, oldest first.
\<close>

definition registered :: "ui_state \<Rightarrow> int list" where
  "registered s = concat (map (\<lambda>c. case c of Call_CheckKey k \<Rightarrow> [k] | _ \<Rightarrow> []) (calls s))"

text \<open>A sequence of key edges \<open>(key_code, updown)\<close> fed to \<^verbatim>\<open>process_key\<close> one by one.\<close>

fun process_keys :: "platform \<Rightarrow> (int \<times> int) list \<Rightarrow> ui_state \<Rightarrow> fault + ui_state" where
  "process_keys p [] s = Inr s"
| "process_keys p ((key_code, updown) # es) s =
     and_then (process_key p key_code updown s) (process_keys p es)"

text \<open>The bound the key queue is meant to keep: \<open>0 \<le> key_queue_len \<le> capacity\<close>.\<close>

definition queue_within_capacity :: "ui_state \<Rightarrow> bool" where
  "queue_within_capacity s = (0 \<le> key_queue_len s \<and> key_queue_len s \<le> int (length (key_queue s)))"

text \<open>A sequence of keys handed to \<^verbatim>\<open>EnqueueKey\<close> one by one, with no consumer.\<close>

fun EnqueueKeys :: "int list \<Rightarrow> ui_state \<Rightarrow> fault + ui_state" where
  "EnqueueKeys [] s = Inr s"
| "EnqueueKeys (k # ks) s = and_then (EnqueueKey k s) (EnqueueKeys ks)"

subsection \<open>Concrete objects\<close>

text \<open>
  Storage filled with zeros, with a key queue of \<open>cap\<close> cells, and the object the
  constructor builds in it. They serve as concrete inputs.
\<close>

definition zeroed :: "nat \<Rightarrow> ui_state" where
  "zeroed cap = \<lparr>
     key_queue = replicate cap 0,
     key_queue_len = 0,
     key_pressed = (\<lambda>_. False),
     key_last_down = 0,
     key_long_press = False,
     key_down_count = 0,
     consecutive_power_keys = 0,
     consecutive_alternate_keys = 0,
     last_key = 0,
     in_touch = 0,
     touch_x = 0,
     touch_y = 0,
     old_x = 0,
     old_y = 0,
     diff_x = 0,
     diff_y = 0,
     min_x_swipe_px = 0,
     min_y_swipe_px = 0,
     max_x_touch = 0,
     max_y_touch = 0,
     mt_count = 0,
     rel_sum = 0,
     v_changed = 0,
     dialog_showing = False,
     dialog_dismissable = False,
     text_visible = False,
     calls = []\<rparr>"

definition fresh :: "nat \<Rightarrow> ui_state" where
  "fresh cap = RecoveryUI (zeroed cap)"

text \<open>A platform with a 1080 x 1920 framebuffer and touch maxima of 4096.\<close>

definition some_platform :: platform where
  "some_platform = \<lparr>
     abs_max = (\<lambda>fd axis. 4096),
     gr_fb_width = 1080,
     gr_fb_height = 1920,
     touch_scale = (\<lambda>v m dim. (v * dim) div m),
     kRefresh = - 6,
     no_recovery_mount = False\<rparr>"

text \<open>A fresh object on which the power key, and no other, is held down.\<close>

definition power_held :: ui_state where
  "power_held = (fresh 256)\<lparr>key_pressed := (\<lambda>k. k = KEY_POWER)\<rparr>"

text \<open>
  Three events as the kernel reports them: a finger touching the screen
  (\<^verbatim>\<open>EV_KEY\<close>, \<^verbatim>\<open>BTN_TOUCH\<close>, value 1), the finger leaving it (value 0), and the
  \<^verbatim>\<open>SYN_REPORT\<close> that closes a packet of events.
\<close>

definition touch_pressed :: input_event where
  "touch_pressed = \<lparr>ev_type = 1, ev_code = 330, ev_value = 1\<rparr>"

definition touch_released :: input_event where
  "touch_released = \<lparr>ev_type = 1, ev_code = 330, ev_value = 0\<rparr>"

definition syn_report :: input_event where
  "syn_report = \<lparr>ev_type = 0, ev_code = 0, ev_value = 0\<rparr>"

text \<open>
  A wake-up of the waiter at the end of a one-second slice in which no other thread
  touched the object, and a USB state file that reads \<^verbatim>\<open>CONFIGURED\<close> up to the end of
  slice \<open>m\<close> and \<^verbatim>\<open>DISCONNECTED\<close> from then on: the cable is pulled after \<open>m\<close> seconds.
\<close>

definition timeout_wake :: wake where
  "timeout_wake = (ETIMEDOUT, Inr)"

definition unplugged_after :: "nat \<Rightarrow> nat \<Rightarrow> string option" where
  "unplugged_after m n = (if n \<le> m then Some ''CONFIGURED'' else Some ''DISCONNECTED'')"

text \<open>A property store that holds a display density of 213 dpi.\<close>

definition density_213 :: "string \<rightharpoonup> string" where
  "density_213 = [''ro.sf.lcd_density'' \<mapsto> ''213'']"

section \<open>Properties\<close>

lemma and_then_Inl [simp]: "and_then (Inl e) f = Inl e"
  by (simp add: and_then_def)

lemma and_then_Inr [simp]: "and_then (Inr x) f = f x"
  by (simp add: and_then_def)

subsection \<open>Frame facts\<close>

lemma registered_log_call:
  "registered (log_call c s) = registered s @ (case c of Call_CheckKey k \<Rightarrow> [k] | _ \<Rightarrow> [])"
  by (simp add: registered_def log_call_def)

lemma registered_update [simp]:
  "registered (s\<lparr>key_queue := q\<rparr>) = registered s"
  "registered (s\<lparr>key_queue_len := n\<rparr>) = registered s"
  "registered (s\<lparr>key_pressed := kp\<rparr>) = registered s"
  "registered (s\<lparr>key_last_down := a\<rparr>) = registered s"
  "registered (s\<lparr>key_long_press := b\<rparr>) = registered s"
  "registered (s\<lparr>key_down_count := a\<rparr>) = registered s"
  "registered (s\<lparr>consecutive_power_keys := a\<rparr>) = registered s"
  "registered (s\<lparr>consecutive_alternate_keys := a\<rparr>) = registered s"
  "registered (s\<lparr>last_key := a\<rparr>) = registered s"
  "registered (s\<lparr>dialog_showing := b\<rparr>) = registered s"
  "registered (s\<lparr>text_visible := b\<rparr>) = registered s"
  by (simp_all add: registered_def)

lemma log_call_fields [simp]:
  "key_queue (log_call c s) = key_queue s"
  "key_queue_len (log_call c s) = key_queue_len s"
  "key_last_down (log_call c s) = key_last_down s"
  "rel_sum (log_call c s) = rel_sum s"
  "last_key (log_call c s) = last_key s"
  "mt_count (log_call c s) = mt_count s"
  by (simp_all add: log_call_def)

lemma EnqueueKey_cases:
  "0 \<le> key_queue_len s \<Longrightarrow>
   EnqueueKey k s = Inr s \<or> EnqueueKey k s = Inr (DialogDismiss s) \<or>
   EnqueueKey k s = Inr (log_call Call_cond_signal
                   (s\<lparr>key_queue := (key_queue s)[nat (key_queue_len s) := k],
                      key_queue_len := key_queue_len s + 1\<rparr>))"
  by (simp add: EnqueueKey_def Let_def)

lemma EnqueueKey_keeps:
  assumes "0 \<le> key_queue_len s"
  shows "\<exists>s'. EnqueueKey k s = Inr s' \<and> registered s' = registered s \<and>
    key_last_down s' = key_last_down s \<and> 0 \<le> key_queue_len s' \<and> rel_sum s' = rel_sum s"
  using EnqueueKey_cases [OF assms, of k] assms
  by (elim disjE) (simp_all add: DialogDismiss_def registered_log_call)

lemma CheckKey_keeps:
  "\<exists>a s'. CheckKey k s = Inr (a, s') \<and> registered s' = registered s @ [k] \<and>
    key_last_down s' = key_last_down s \<and> key_queue_len s' = key_queue_len s \<and> rel_sum s' = rel_sum s"
  by (simp add: CheckKey_def IsKeyPressed_def KEY_POWER_def KEY_MAX_def Let_def registered_log_call)

text \<open>
  What one call of \<^verbatim>\<open>process_key\<close> does to the observations, for a key code inside the
  \<^verbatim>\<open>key_pressed\<close> array and a queue length that is not negative.
\<close>

lemma process_key_effect:
  assumes "0 \<le> k" "k \<le> KEY_MAX" "0 \<le> key_queue_len s"
  shows "\<exists>s'. process_key p k u s = Inr s' \<and>
           registered s' = registered s @ (if u = 0 \<and> key_last_down s = k then [k] else []) \<and>
           key_last_down s' = (if u \<noteq> 0 then k else - 1) \<and>
           0 \<le> key_queue_len s' \<and> rel_sum s' = rel_sum s"
proof (cases "u = 0 \<and> key_last_down s = k")
  case False
  with assms show ?thesis
    by (auto simp: process_key_def process_key_locked_def Let_def registered_log_call)
next
  case True
  define s1 where "s1 = NextCheckKeyIsLong (key_long_press s)
                          (s\<lparr>key_pressed := (key_pressed s)(k := False), key_last_down := - 1\<rparr>)"
  have locked: "process_key_locked k u s =
      Inr (True, key_long_press s, s\<lparr>key_pressed := (key_pressed s)(k := False), key_last_down := - 1\<rparr>)"
    using True assms by (simp add: process_key_locked_def Let_def)
  have s1: "registered s1 = registered s" "key_last_down s1 = - 1" "key_queue_len s1 = key_queue_len s"
     "rel_sum s1 = rel_sum s"
    by (simp_all add: s1_def NextCheckKeyIsLong_def registered_log_call)
  obtain a s2 where ck: "CheckKey k s1 = Inr (a, s2)" "registered s2 = registered s1 @ [k]"
    "key_last_down s2 = key_last_down s1" "key_queue_len s2 = key_queue_len s1" "rel_sum s2 = rel_sum s1"
    using CheckKey_keeps [of k s1] by blast
  have pk: "process_key p k u s =
     (case a of
        IGNORE \<Rightarrow> Inr s2
      | TOGGLE \<Rightarrow> Inr (ShowText (\<not> IsTextVisible s2) s2)
      | REBOOT \<Rightarrow> Inr (log_call Call_android_reboot (log_call Call_vold_unmount_all s2))
      | ENQUEUE \<Rightarrow> EnqueueKey k s2
      | MOUNT_SYSTEM \<Rightarrow>
          (if no_recovery_mount p then Inr s2
           else Inr (log_call (Call_Print ''Mounted /system.'')
                  (log_call (Call_ensure_path_mounted ''/system'') s2))))"
    by (simp add: process_key_def locked ck s1_def [symmetric])
  have len2: "0 \<le> key_queue_len s2" using ck s1 assms by simp
  show ?thesis
  proof (cases a)
    case ENQUEUE
    then show ?thesis
      using EnqueueKey_keeps [OF len2, of k] pk ck s1 True by auto
  qed (use pk ck s1 True len2 in \<open>auto simp: ShowText_def registered_log_call\<close>)
qed

subsection \<open>Registration of keys\<close>

text \<open>
  C1, as the source has it. At an up edge \<^verbatim>\<open>process_key\<close> registers the key if and
  only if \<^verbatim>\<open>key_last_down\<close> equals its code at that moment. Consequently, for the
  chord A down, B down, B up, A up with distinct codes A and B, exactly one key is
  registered, and it is B, the key pressed last and released first: B's up edge finds
  \<^verbatim>\<open>key_last_down = B\<close>, and A's up edge finds it reset to -1.
  The codes lie in \<open>[0, KEY_MAX]\<close> and the queue length is not negative.
\<close>

theorem registration_at_up_edge:
  assumes "0 \<le> A" "A \<le> KEY_MAX" "0 \<le> B" "B \<le> KEY_MAX" "A \<noteq> B" "0 \<le> key_queue_len s"
  shows "(\<exists>s'. process_key p A 0 s = Inr s' \<and>
            registered s' = registered s @ (if key_last_down s = A then [A] else []))
       \<and> (\<exists>s'. process_keys p [(A, 1), (B, 1), (B, 0), (A, 0)] s = Inr s' \<and>
            registered s' = registered s @ [B])"
proof
  show "\<exists>s'. process_key p A 0 s = Inr s' \<and>
            registered s' = registered s @ (if key_last_down s = A then [A] else [])"
    using process_key_effect [OF assms(1,2,6), of p 0] by auto
next
  obtain s1 where s1: "process_key p A 1 s = Inr s1" "registered s1 = registered s"
      "key_last_down s1 = A" "0 \<le> key_queue_len s1"
    using process_key_effect [OF assms(1,2,6), of p 1] by auto
  obtain s2 where s2: "process_key p B 1 s1 = Inr s2" "registered s2 = registered s1"
      "key_last_down s2 = B" "0 \<le> key_queue_len s2"
    using process_key_effect [OF assms(3,4) s1(4), of p 1] by auto
  obtain s3 where s3: "process_key p B 0 s2 = Inr s3" "registered s3 = registered s2 @ [B]"
      "key_last_down s3 = - 1" "0 \<le> key_queue_len s3"
    using process_key_effect [OF assms(3,4) s2(4), of p 0] s2(3) by auto
  obtain s4 where s4: "process_key p A 0 s3 = Inr s4" "registered s4 = registered s3"
    using process_key_effect [OF assms(1,2) s3(4), of p 0] s3(3) assms(1) by auto
  show "\<exists>s'. process_keys p [(A, 1), (B, 1), (B, 0), (A, 0)] s = Inr s' \<and>
            registered s' = registered s @ [B]"
    using s1 s2 s3 s4 by simp
qed

text \<open>The theorem at A = 1, B = 2 and a freshly constructed object.\<close>

theorem registration_at_up_edge_witness:
  "(\<exists>s'. process_key some_platform 1 0 (fresh 256) = Inr s' \<and>
       registered s' = registered (fresh 256) @ (if key_last_down (fresh 256) = 1 then [1] else []))
   \<and> (\<exists>s'. process_keys some_platform [(1, 1), (2, 1), (2, 0), (1, 0)] (fresh 256) = Inr s' \<and>
       registered s' = registered (fresh 256) @ [2])"
  using registration_at_up_edge [of 1 2 "fresh 256" some_platform]
  by (simp add: KEY_MAX_def fresh_def RecoveryUI_def zeroed_def)

text \<open>
  C1 as stated fails: with A = 1 and B = 2 on a fresh object the chord registers key 2
  (B) and not key 1 (A).
\<close>

theorem chord_registers_second_key:
  "map_sum id registered
     (process_keys some_platform [(1, 1), (2, 1), (2, 0), (1, 0)] (fresh 256)) = Inr [2]
   \<and> map_sum id registered
     (process_keys some_platform [(1, 1), (2, 1), (2, 0), (1, 0)] (fresh 256)) \<noteq> Inr [1]"
  by (simp add: process_key_def process_key_locked_def CheckKey_def IsKeyPressed_def EnqueueKey_def
      NextCheckKeyIsLong_def log_call_def registered_def fresh_def RecoveryUI_def zeroed_def
      DialogShowing_def Let_def input_consts)

subsection \<open>The key queue and its bound\<close>

lemma DialogDismiss_queue:
  "key_queue (DialogDismiss s) = key_queue s" "key_queue_len (DialogDismiss s) = key_queue_len s"
  "calls (DialogDismiss s) = calls s @ [Call_DialogDismiss]" "\<not> DialogShowing (DialogDismiss s)"
  by (simp_all add: DialogDismiss_def log_call_def DialogShowing_def)

text \<open>
  \<^verbatim>\<open>EnqueueKey\<close>, \<^verbatim>\<open>FlushKeys\<close> and the dequeuing end of \<^verbatim>\<open>WaitKey\<close> keep the bound, and
  so does \<^verbatim>\<open>CancelWaitKey\<close> while a cell is free.
\<close>

lemma EnqueueKey_within_capacity:
  "queue_within_capacity s \<Longrightarrow> \<exists>s'. EnqueueKey k s = Inr s' \<and> queue_within_capacity s'"
  by (auto simp: queue_within_capacity_def EnqueueKey_def Let_def DialogDismiss_queue)

lemma FlushKeys_within_capacity: "queue_within_capacity (FlushKeys s)"
  by (simp add: queue_within_capacity_def FlushKeys_def)

lemma WaitKey_take_within_capacity:
  "queue_within_capacity s \<Longrightarrow> \<exists>k s'. WaitKey_take s = Inr (k, s') \<and> queue_within_capacity s'"
  by (auto simp: queue_within_capacity_def WaitKey_take_def Let_def)

lemma CancelWaitKey_within_capacity:
  "queue_within_capacity s \<Longrightarrow> key_queue_len s < int (length (key_queue s)) \<Longrightarrow>
   \<exists>s'. CancelWaitKey s = Inr s' \<and> queue_within_capacity s'"
  by (auto simp: queue_within_capacity_def CancelWaitKey_def)

lemma CancelWaitKey_when_full:
  "key_queue_len s = int (length (key_queue s)) \<Longrightarrow>
   CancelWaitKey s = Inl (Out_of_bounds ''key_queue'' (key_queue_len s))"
  by (simp add: CancelWaitKey_def)

lemma EnqueueKeys_fill:
  "\<not> DialogShowing s \<Longrightarrow> 0 \<le> key_queue_len s \<Longrightarrow>
   key_queue_len s + int (length ks) \<le> int (length (key_queue s)) \<Longrightarrow>
   \<exists>s'. EnqueueKeys ks s = Inr s' \<and> key_queue_len s' = key_queue_len s + int (length ks) \<and>
        length (key_queue s') = length (key_queue s)"
proof (induction ks arbitrary: s)
  case Nil
  then show ?case by simp
next
  case (Cons k ks)
  let ?s1 = "log_call Call_cond_signal
                   (s\<lparr>key_queue := (key_queue s)[nat (key_queue_len s) := k],
                      key_queue_len := key_queue_len s + 1\<rparr>)"
  have step: "EnqueueKey k s = Inr ?s1"
    using Cons.prems by (simp add: EnqueueKey_def Let_def)
  have "\<exists>s'. EnqueueKeys ks ?s1 = Inr s' \<and> key_queue_len s' = key_queue_len ?s1 + int (length ks) \<and>
        length (key_queue s') = length (key_queue ?s1)"
    using Cons.prems by (intro Cons.IH) (simp_all add: DialogShowing_def log_call_def)
  then show ?case using step by auto
qed

text \<open>
  C2 on the code. Starting from a fresh object whose queue has \<open>cap\<close> cells, \<open>cap\<close> keys
  are enqueued and none is consumed: the queue is full, \<open>key_queue_len = cap\<close>. The call
  of \<^verbatim>\<open>CancelWaitKey\<close> that follows stores at \<^verbatim>\<open>key_queue[cap]\<close>, one cell past the end of
  the array, before it increments \<^verbatim>\<open>key_queue_len\<close>: it does not keep the bound.
\<close>

theorem CancelWaitKey_overruns_full_queue:
  "\<exists>s. EnqueueKeys (replicate cap k) (fresh cap) = Inr s \<and> key_queue_len s = int cap \<and>
       length (key_queue s) = cap \<and>
       CancelWaitKey s = Inl (Out_of_bounds ''key_queue'' (int cap))"
proof -
  have "\<exists>s'. EnqueueKeys (replicate cap k) (fresh cap) = Inr s' \<and>
          key_queue_len s' = key_queue_len (fresh cap) + int (length (replicate cap k)) \<and>
          length (key_queue s') = length (key_queue (fresh cap))"
    by (rule EnqueueKeys_fill) (simp_all add: fresh_def RecoveryUI_def zeroed_def DialogShowing_def)
  then obtain s where s: "EnqueueKeys (replicate cap k) (fresh cap) = Inr s"
     "key_queue_len s = int cap" "length (key_queue s) = cap"
    by (auto simp: fresh_def RecoveryUI_def zeroed_def)
  then show ?thesis using CancelWaitKey_when_full [of s] by auto
qed

text \<open>
  C9. \<^verbatim>\<open>EnqueueKey\<close> has no wait in it: on a queue whose length is not negative it
  returns, whatever the state. When no dialog is showing
  and the queue is full, the object is left exactly as it was: the code is dropped and
  the condition variable is not signalled. When a dialog is showing, the key is never
  pushed: if the dialog is not dismissable the object is left as it was, and if it is
  dismissable the only effect is the call of \<^verbatim>\<open>DialogDismiss\<close>, which leaves the queue
  and its length unchanged.
\<close>

theorem EnqueueKey_drops:
  "(0 \<le> key_queue_len s \<longrightarrow> (\<exists>s'. EnqueueKey key_code s = Inr s'))
   \<and> (\<not> DialogShowing s \<and> int (length (key_queue s)) \<le> key_queue_len s
      \<longrightarrow> EnqueueKey key_code s = Inr s)
   \<and> (DialogShowing s \<and> \<not> DialogDismissable s \<longrightarrow> EnqueueKey key_code s = Inr s)
   \<and> (DialogShowing s \<and> DialogDismissable s \<longrightarrow>
        EnqueueKey key_code s = Inr (DialogDismiss s)
        \<and> key_queue (DialogDismiss s) = key_queue s
        \<and> key_queue_len (DialogDismiss s) = key_queue_len s
        \<and> calls (DialogDismiss s) = calls s @ [Call_DialogDismiss])"
  by (simp add: EnqueueKey_def DialogDismiss_queue Let_def)

text \<open>
  The theorem on queues of two cells: an empty one, a full one, one behind a dialog that
  is not dismissable and one behind a dialog that is.
\<close>

theorem EnqueueKey_drops_witness:
  "(\<exists>s'. EnqueueKey KEY_POWER (fresh 2) = Inr s')
   \<and> EnqueueKey KEY_POWER ((fresh 2)\<lparr>key_queue_len := 2\<rparr>) = Inr ((fresh 2)\<lparr>key_queue_len := 2\<rparr>)
   \<and> EnqueueKey KEY_POWER ((fresh 2)\<lparr>dialog_showing := True\<rparr>) = Inr ((fresh 2)\<lparr>dialog_showing := True\<rparr>)
   \<and> EnqueueKey KEY_POWER ((fresh 2)\<lparr>dialog_showing := True, dialog_dismissable := True\<rparr>)
       = Inr (DialogDismiss ((fresh 2)\<lparr>dialog_showing := True, dialog_dismissable := True\<rparr>))
   \<and> key_queue_len (DialogDismiss ((fresh 2)\<lparr>dialog_showing := True, dialog_dismissable := True\<rparr>)) = 0"
  using EnqueueKey_drops [of "fresh 2" KEY_POWER]
        EnqueueKey_drops [of "(fresh 2)\<lparr>key_queue_len := 2\<rparr>" KEY_POWER]
        EnqueueKey_drops [of "(fresh 2)\<lparr>dialog_showing := True\<rparr>" KEY_POWER]
        EnqueueKey_drops [of "(fresh 2)\<lparr>dialog_showing := True, dialog_dismissable := True\<rparr>" KEY_POWER]
  by (simp add: DialogShowing_def DialogDismissable_def fresh_def RecoveryUI_def zeroed_def)

subsection \<open>The default policy and \<open>last_key\<close>\<close>

text \<open>
  C7, as the source has it. \<^verbatim>\<open>CheckKey(k)\<close> always returns, never with \<^verbatim>\<open>IGNORE\<close>; when
  it returns \<^verbatim>\<open>ENQUEUE\<close>, \<^verbatim>\<open>last_key\<close> equals \<open>k\<close> afterwards; when it returns \<^verbatim>\<open>TOGGLE\<close>,
  \<^verbatim>\<open>REBOOT\<close> or \<^verbatim>\<open>MOUNT_SYSTEM\<close> it has left through an early return and \<^verbatim>\<open>last_key\<close>
  keeps the value it had.
\<close>

theorem CheckKey_last_key:
  "\<exists>action s'. CheckKey key s = Inr (action, s') \<and> action \<noteq> IGNORE \<and>
      last_key s' = (if action = ENQUEUE then key else last_key s)"
  by (simp add: CheckKey_def IsKeyPressed_def KEY_POWER_def KEY_MAX_def Let_def)

text \<open>
  C7 as stated fails: with the power key held, \<^verbatim>\<open>CheckKey(KEY_VOLUMEUP)\<close> returns
  \<^verbatim>\<open>TOGGLE\<close> and \<^verbatim>\<open>last_key\<close> is still -1, not \<^verbatim>\<open>KEY_VOLUMEUP\<close>.
\<close>

theorem CheckKey_toggle_keeps_last_key:
  "CheckKey KEY_VOLUMEUP power_held = Inr (TOGGLE, log_call (Call_CheckKey KEY_VOLUMEUP) power_held)
   \<and> last_key (log_call (Call_CheckKey KEY_VOLUMEUP) power_held) = - 1
   \<and> last_key (log_call (Call_CheckKey KEY_VOLUMEUP) power_held) \<noteq> KEY_VOLUMEUP"
  by (simp add: CheckKey_def IsKeyPressed_def power_held_def fresh_def RecoveryUI_def zeroed_def
        log_call_def input_consts)

subsection \<open>The control socket's tokeniser\<close>

lemma strchr_prefix:
  "c \<notin> set pre \<Longrightarrow> strchr (pre @ c # rest) c = Some (length pre)"
  by (induction pre) (auto simp: strchr_def)

lemma string_split_dialog_show:
  "string_split (''dialog show '' @ t) 3 = [''dialog'', ''show'', t]"
proof -
  have 1: "strchr (''dialog show '' @ t) (CHR '' '') = Some 6"
    using strchr_prefix [of "CHR '' ''" "''dialog''" "''show '' @ t"] by simp
  have 2: "strchr (''show '' @ t) (CHR '' '') = Some 4"
    using strchr_prefix [of "CHR '' ''" "''show''" t] by simp
  show ?thesis
    using 1 2 by (simp add: string_split_def string_split_from.simps)
qed

text \<open>
  C4, as the source has it. \<^verbatim>\<open>string_split\<close> is called with \<^verbatim>\<open>maxfields = 3\<close>: it cuts
  at the first space at most twice and keeps the whole remainder as the last field. For
  every text \<open>t\<close>: when the buffer that \<^verbatim>\<open>Read\<close> delivers from a readable client holds
  \<^verbatim>\<open>dialog show\<close>, a space and \<open>t\<close>, the fields are \<^verbatim>\<open>dialog\<close>, \<^verbatim>\<open>show\<close> and \<open>t\<close>, and the
  dispatcher calls \<^verbatim>\<open>DialogShowInfo(t)\<close> and nothing else. For the line of the claim,
  \<open>t\<close> starts with \<^verbatim>\<open>Hello world\<close>: \<^verbatim>\<open>Hello\<close> is not lost.
\<close>

theorem dialog_show_keeps_remainder:
  assumes "revents AND POLLIN \<noteq> 0" "0 < nread"
  shows "string_split (''dialog show '' @ t) 3 = [''dialog'', ''show'', t]
       \<and> message_socket_client_event fd revents nread (''dialog show '' @ t) s = (0, DialogShowInfo t s)"
  using assms string_split_dialog_show [of t] by (simp add: message_socket_client_event_def)

text \<open>The theorem for a buffer that holds \<^verbatim>\<open>dialog show Hello world\<close>, 23 bytes read.\<close>

theorem dialog_show_keeps_remainder_witness:
  "string_split ''dialog show Hello world'' 3 = [''dialog'', ''show'', ''Hello world'']
   \<and> message_socket_client_event 5 POLLIN 23 ''dialog show Hello world'' (fresh 256)
        = (0, DialogShowInfo ''Hello world'' (fresh 256))"
  using dialog_show_keeps_remainder [of POLLIN 23 "''Hello world''" 5 "fresh 256"]
  by (simp add: POLLIN_def)

text \<open>
  Whatever \<^verbatim>\<open>Read\<close> leaves in the buffer after \<^verbatim>\<open>dialog show Hello world\<close> (the newline,
  or nothing), the third field starts with \<^verbatim>\<open>Hello world\<close> and is not \<^verbatim>\<open>world\<close>.
\<close>

lemma dialog_show_Hello_world_any_ending:
  "string_split (''dialog show Hello world'' @ ending) 3
     = [''dialog'', ''show'', ''Hello world'' @ ending]
   \<and> ''Hello world'' @ ending \<noteq> ''world''"
  using string_split_dialog_show [of "''Hello world'' @ ending"] by simp

text \<open>
  C4 as stated fails. With the line in the buffer without its newline, the fields are
  \<^verbatim>\<open>dialog\<close>, \<^verbatim>\<open>show\<close> and \<^verbatim>\<open>Hello world\<close>, and the one call made is
  \<^verbatim>\<open>DialogShowInfo\<close> with \<^verbatim>\<open>Hello world\<close>; with the newline still in the buffer, the
  third field and the argument of the call are not \<^verbatim>\<open>world\<close> either.
\<close>

theorem dialog_show_Hello_world:
  "string_split ''dialog show Hello world'' 3 = [''dialog'', ''show'', ''Hello world'']
   \<and> string_split ''dialog show Hello world'' 3 \<noteq> [''dialog'', ''show'', ''world'']
   \<and> calls (snd (message_socket_client_event 5 POLLIN 23 ''dialog show Hello world'' (fresh 256)))
        = [Call_DialogShowInfo ''Hello world'']
   \<and> string_split (''dialog show Hello world'' @ [CHR 0x0A]) 3 \<noteq> [''dialog'', ''show'', ''world'']
   \<and> calls (snd (message_socket_client_event 5 POLLIN 24 (''dialog show Hello world'' @ [CHR 0x0A]) (fresh 256)))
        \<noteq> [Call_DialogShowInfo ''world'']"
  using string_split_dialog_show [of "''Hello world''"]
        string_split_dialog_show [of "''Hello world'' @ [CHR 0x0A]"]
  by (simp add: message_socket_client_event_def POLLIN_def DialogShowInfo_def log_call_def
        fresh_def RecoveryUI_def zeroed_def)

subsection \<open>The contact counter\<close>

text \<open>
  What the \<^verbatim>\<open>BTN_TOUCH\<close> branch of \<^verbatim>\<open>process_swipe\<close> does: the counter goes up when
  the event's value equals the key code \<^verbatim>\<open>KEY_DOWN\<close>, down (not below zero) when it
  equals the key code \<^verbatim>\<open>KEY_UP\<close>, and the accumulators are reset whenever the counter
  is 0 afterwards.
\<close>

lemma process_swipe_touch:
  assumes "uint (ev_type ev) = EV_KEY" "uint (ev_code ev) = BTN_TOUCH"
  shows "\<exists>s'. process_swipe p fd ev s = Inr s' \<and>
     mt_count s' = (if sint (ev_value ev) = KEY_DOWN then mt_count s + 1
                    else if mt_count s > 0 \<and> sint (ev_value ev) = KEY_UP then mt_count s - 1
                    else mt_count s) \<and>
     (mt_count s' = 0 \<longrightarrow> diff_x s' = 0 \<and> diff_y s' = 0 \<and> old_x s' = 0 \<and> old_y s' = 0
         \<and> touch_x s' = 0 \<and> touch_y s' = 0)"
  using assms by (auto simp: process_swipe_def Let_def reset_gestures_def)

text \<open>
  C5 on the code. The kernel reports a finger touching the screen as \<^verbatim>\<open>BTN_TOUCH\<close> with
  value 1 and the finger leaving as value 0. Value 1 is neither \<^verbatim>\<open>KEY_DOWN\<close> (108) nor
  \<^verbatim>\<open>KEY_UP\<close> (103): on a fresh object the touch leaves \<^verbatim>\<open>mt_count\<close> at 0. Nor is value
  0 equal to \<^verbatim>\<open>KEY_UP\<close>: with two contacts counted, the release leaves the counter
  at 2.
\<close>

theorem touch_press_is_not_counted:
  "map_sum id mt_count (process_swipe some_platform 3 touch_pressed (fresh 256)) = Inr 0
   \<and> map_sum id mt_count (process_swipe some_platform 3 touch_released ((fresh 256)\<lparr>mt_count := 2\<rparr>)) = Inr 2"
  by (simp add: process_swipe_def touch_pressed_def touch_released_def Let_def reset_gestures_def fresh_def RecoveryUI_def
       zeroed_def some_platform_def input_consts)

subsection \<open>The trackball accumulator\<close>

lemma reset_gestures_fields [simp]:
  "key_queue_len (reset_gestures s) = key_queue_len s"
  "key_last_down (reset_gestures s) = key_last_down s"
  "rel_sum (reset_gestures s) = rel_sum s"
  "registered (reset_gestures s) = registered s"
  by (simp_all add: reset_gestures_def registered_def)

lemma registered_update2 [simp]:
  "registered (s\<lparr>max_x_touch := a\<rparr>) = registered s"
  "registered (s\<lparr>max_y_touch := a\<rparr>) = registered s"
  "registered (s\<lparr>mt_count := a\<rparr>) = registered s"
  "registered (s\<lparr>in_touch := a\<rparr>) = registered s"
  "registered (s\<lparr>touch_x := a\<rparr>) = registered s"
  "registered (s\<lparr>touch_y := a\<rparr>) = registered s"
  "registered (s\<lparr>old_x := a\<rparr>) = registered s"
  "registered (s\<lparr>old_y := a\<rparr>) = registered s"
  "registered (s\<lparr>diff_x := a\<rparr>) = registered s"
  "registered (s\<lparr>diff_y := a\<rparr>) = registered s"
  "registered (s\<lparr>rel_sum := w\<rparr>) = registered s"
  by (simp_all add: registered_def)

lemma enqueue_and_reset_keeps:
  assumes "0 \<le> key_queue_len s"
  shows "\<exists>s'. and_then (EnqueueKey k s) (\<lambda>s2. Inr (reset_gestures s2)) = Inr s' \<and>
     registered s' = registered s \<and> key_last_down s' = key_last_down s \<and>
     0 \<le> key_queue_len s' \<and> rel_sum s' = rel_sum s"
  using EnqueueKey_keeps [OF assms, of k] by auto

lemma process_swipe_keeps:
  assumes "0 \<le> key_queue_len s"
  shows "\<exists>s'. process_swipe p fd ev s = Inr s' \<and>
     registered s' = registered s \<and> key_last_down s' = key_last_down s \<and>
     0 \<le> key_queue_len s' \<and> rel_sum s' = rel_sum s"
proof -
  define s0 where "s0 = (if max_x_touch s = 0 \<or> max_y_touch s = 0
               then s\<lparr>max_x_touch := abs_max p fd ABS_MT_POSITION_X,
                       max_y_touch := abs_max p fd ABS_MT_POSITION_Y\<rparr>
               else s)"
  have s0: "registered s0 = registered s" "key_last_down s0 = key_last_down s"
     "key_queue_len s0 = key_queue_len s" "rel_sum s0 = rel_sum s"
    by (simp_all add: s0_def)
  have len: "0 \<le> key_queue_len (s0\<lparr>in_touch := 0\<rparr>)" using s0 assms by simp
  note enq = enqueue_and_reset_keeps [OF len]
  show ?thesis
    unfolding process_swipe_def s0_def [symmetric] Let_def
    using s0 assms enq [of KEY_VOLUMEDOWN] enq [of KEY_VOLUMEUP] enq [of KEY_POWER] enq [of KEY_BACK]
    by (simp split: if_splits)
qed


lemma press_and_release:
  assumes "0 \<le> k" "k \<le> KEY_MAX" "0 \<le> key_queue_len s"
  shows "\<exists>s'. and_then (process_key p k 1 s) (\<lambda>s2.
              and_then (process_key p k 0 s2) (\<lambda>s3. Inr (s3\<lparr>rel_sum := 0\<rparr>))) = Inr s' \<and>
           registered s' = registered s @ [k] \<and> 0 \<le> key_queue_len s' \<and> rel_sum s' = 0"
proof -
  obtain s2 where s2: "process_key p k 1 s = Inr s2" "registered s2 = registered s"
      "key_last_down s2 = k" "0 \<le> key_queue_len s2"
    using process_key_effect [OF assms, of p 1] by auto
  obtain s3 where s3: "process_key p k 0 s2 = Inr s3" "registered s3 = registered s2 @ [k]"
      "0 \<le> key_queue_len s3"
    using process_key_effect [OF assms(1,2) s2(4), of p 0] s2(3) by auto
  show ?thesis using s2 s3 by simp
qed

lemma input_callback_rel_effect:
  assumes "0 \<le> key_queue_len s"
  shows "\<exists>s'. input_callback_rel p ev s = Inr s' \<and> 0 \<le> key_queue_len s' \<and>
     rel_sum s' =
       (if uint (ev_code ev) = REL_Y
        then (if 3 <s rel_sum s + ev_value ev \<or> rel_sum s + ev_value ev <s - 3 then 0
              else rel_sum s + ev_value ev)
        else rel_sum s) \<and>
     registered s' = registered s @
       (if uint (ev_code ev) = REL_Y \<and> 3 <s rel_sum s + ev_value ev then [KEY_DOWN]
        else if uint (ev_code ev) = REL_Y \<and> rel_sum s + ev_value ev <s - 3 then [KEY_UP]
        else [])"
proof -
  let ?s1 = "s\<lparr>rel_sum := rel_sum s + ev_value ev\<rparr>"
  have len: "0 \<le> key_queue_len ?s1" using assms by simp
  have down: "\<exists>s'. and_then (process_key p KEY_DOWN 1 ?s1) (\<lambda>s2.
              and_then (process_key p KEY_DOWN 0 s2) (\<lambda>s3. Inr (s3\<lparr>rel_sum := 0\<rparr>))) = Inr s' \<and>
           registered s' = registered ?s1 @ [KEY_DOWN] \<and> 0 \<le> key_queue_len s' \<and> rel_sum s' = 0"
    by (rule press_and_release [OF _ _ len]) (simp_all add: input_consts)
  have up: "\<exists>s'. and_then (process_key p KEY_UP 1 ?s1) (\<lambda>s2.
              and_then (process_key p KEY_UP 0 s2) (\<lambda>s3. Inr (s3\<lparr>rel_sum := 0\<rparr>))) = Inr s' \<and>
           registered s' = registered ?s1 @ [KEY_UP] \<and> 0 \<le> key_queue_len s' \<and> rel_sum s' = 0"
    by (rule press_and_release [OF _ _ len]) (simp_all add: input_consts)
  show ?thesis
    unfolding input_callback_rel_def Let_def
    using down up assms by (auto simp del: and_then_Inr and_then_Inl)
qed

text \<open>
  C6, as the source has it. After \<^verbatim>\<open>input_callback\<close> has processed an event (the queue
  length not being negative), \<^verbatim>\<open>rel_sum\<close> is: unchanged for an \<^verbatim>\<open>EV_SYN\<close> event, which
  returns before the trackball code; for an \<^verbatim>\<open>EV_REL\<close> event with code \<^verbatim>\<open>REL_Y\<close>, zero
  when the new sum is above 3 or below -3 and the new sum otherwise; unchanged for any
  other \<^verbatim>\<open>EV_REL\<close> event; and zero for an event of any other type. An \<^verbatim>\<open>EV_REL\<close> event
  registers \<^verbatim>\<open>KEY_DOWN\<close> when the sum goes above 3, \<^verbatim>\<open>KEY_UP\<close> when it goes below -3,
  and nothing otherwise.
\<close>

theorem rel_sum_after_input_callback:
  assumes "0 \<le> key_queue_len s"
  shows "\<exists>r s'. input_callback p fd (Some ev) s = Inr (r, s') \<and>
     rel_sum s' =
       (if uint (ev_type ev) = EV_SYN then rel_sum s
        else if uint (ev_type ev) = EV_REL then
          (if uint (ev_code ev) = REL_Y
           then (if 3 <s rel_sum s + ev_value ev \<or> rel_sum s + ev_value ev <s - 3 then 0
                 else rel_sum s + ev_value ev)
           else rel_sum s)
        else 0) \<and>
     (uint (ev_type ev) = EV_REL \<longrightarrow>
        registered s' = registered s @
         (if uint (ev_code ev) = REL_Y \<and> 3 <s rel_sum s + ev_value ev then [KEY_DOWN]
          else if uint (ev_code ev) = REL_Y \<and> rel_sum s + ev_value ev <s - 3 then [KEY_UP]
          else []))"
proof -
  obtain s1 where s1: "process_swipe p fd ev s = Inr s1" "registered s1 = registered s"
      "0 \<le> key_queue_len s1" "rel_sum s1 = rel_sum s"
    using process_swipe_keeps [OF assms, of p fd ev] by auto
  show ?thesis
  proof (cases "uint (ev_type ev) = EV_SYN")
    case True
    then show ?thesis using s1 by (simp add: input_callback_def input_consts)
  next
    case not_syn: False
    show ?thesis
    proof (cases "uint (ev_type ev) = EV_REL")
      case True
      obtain s2 where s2: "input_callback_rel p ev s1 = Inr s2" "rel_sum s2 =
         (if uint (ev_code ev) = REL_Y
          then (if 3 <s rel_sum s1 + ev_value ev \<or> rel_sum s1 + ev_value ev <s - 3 then 0
                else rel_sum s1 + ev_value ev)
          else rel_sum s1)"
        "registered s2 = registered s1 @
         (if uint (ev_code ev) = REL_Y \<and> 3 <s rel_sum s1 + ev_value ev then [KEY_DOWN]
          else if uint (ev_code ev) = REL_Y \<and> rel_sum s1 + ev_value ev <s - 3 then [KEY_UP]
          else [])"
        using input_callback_rel_effect [OF s1(3), of p ev] by blast
      have "input_callback p fd (Some ev) s = Inr (0, s2)"
        using True s1 s2 by (simp add: input_callback_def input_consts)
      then show ?thesis using s2 s1 True by (simp add: input_consts)
    next
      case False
      let ?s2 = "s1\<lparr>rel_sum := 0\<rparr>"
      have len: "0 \<le> key_queue_len ?s2" using s1 by simp
      show ?thesis
      proof (cases "uint (ev_type ev) = EV_KEY \<and> uint (ev_code ev) \<le> KEY_MAX")
        case True
        obtain s3 where s3: "process_key p (uint (ev_code ev)) (sint (ev_value ev)) ?s2 = Inr s3"
           "rel_sum s3 = rel_sum ?s2"
          using process_key_effect [OF _ _ len, of "uint (ev_code ev)" p "sint (ev_value ev)"] True
          by auto
        have "input_callback p fd (Some ev) s = Inr (0, s3)"
          using True not_syn False s1 s3 by (simp add: input_callback_def)
        then show ?thesis using s3 not_syn False by simp
      next
        case no_key: False
        have "input_callback p fd (Some ev) s = Inr (0, ?s2)"
          using no_key not_syn False s1 by (auto simp add: input_callback_def)
        then show ?thesis using not_syn False by simp
      qed
    qed
  qed
qed

text \<open>
  The theorem on a fresh object whose sum is 2, for a \<^verbatim>\<open>SYN_REPORT\<close>, for a \<^verbatim>\<open>REL_Y\<close>
  event of value 2 (the sum crosses 3) and for a touch event.
\<close>

theorem rel_sum_after_input_callback_witness:
  "(\<exists>r s'. input_callback some_platform 3 (Some syn_report) ((fresh 256)\<lparr>rel_sum := 2\<rparr>) = Inr (r, s')
       \<and> rel_sum s' = 2)
   \<and> (\<exists>r s'. input_callback some_platform 3 (Some \<lparr>ev_type = 2, ev_code = 1, ev_value = 2\<rparr>)
                 ((fresh 256)\<lparr>rel_sum := 2\<rparr>) = Inr (r, s')
       \<and> rel_sum s' = 0 \<and> registered s' = [KEY_DOWN])
   \<and> (\<exists>r s'. input_callback some_platform 3 (Some touch_pressed) ((fresh 256)\<lparr>rel_sum := 2\<rparr>) = Inr (r, s')
       \<and> rel_sum s' = 0)"
  using rel_sum_after_input_callback [of "(fresh 256)\<lparr>rel_sum := 2\<rparr>" some_platform 3 syn_report]
        rel_sum_after_input_callback [of "(fresh 256)\<lparr>rel_sum := 2\<rparr>" some_platform 3
           "\<lparr>ev_type = 2, ev_code = 1, ev_value = 2\<rparr>"]
        rel_sum_after_input_callback [of "(fresh 256)\<lparr>rel_sum := 2\<rparr>" some_platform 3 touch_pressed]
  by (simp add: syn_report_def touch_pressed_def fresh_def RecoveryUI_def zeroed_def registered_def
        input_consts)

text \<open>
  C6 as stated fails: a \<^verbatim>\<open>SYN_REPORT\<close> processed on an object whose sum is 2 leaves the
  sum at 2.
\<close>

theorem syn_report_keeps_rel_sum:
  "input_callback some_platform 3 (Some syn_report) ((fresh 256)\<lparr>rel_sum := 2\<rparr>)
     = Inr (0, (fresh 256)\<lparr>rel_sum := 2, max_x_touch := 4096, max_y_touch := 4096, in_touch := 0\<rparr>)
   \<and> rel_sum ((fresh 256)\<lparr>rel_sum := 2, max_x_touch := 4096, max_y_touch := 4096, in_touch := 0\<rparr>) \<noteq> 0"
  by (simp add: input_callback_def process_swipe_def syn_report_def some_platform_def fresh_def
        RecoveryUI_def zeroed_def input_consts)

subsection \<open>Indices into \<open>key_pressed\<close>\<close>

lemma and_then_avoids:
  "m \<noteq> Inl e \<Longrightarrow> (\<And>x. f x \<noteq> Inl e) \<Longrightarrow> and_then m f \<noteq> Inl e"
  by (cases m) simp_all

lemma EnqueueKey_in_key_pressed: "EnqueueKey k s \<noteq> Inl (Out_of_bounds ''key_pressed'' i)"
  by (simp add: EnqueueKey_def Let_def)

lemma CheckKey_in_key_pressed: "CheckKey k s \<noteq> Inl e"
  using CheckKey_keeps [of k s] by auto

lemma process_key_out_of_range:
  "k < 0 \<or> KEY_MAX < k \<Longrightarrow> process_key p k u s = Inl (Out_of_bounds ''key_pressed'' k)"
  by (auto simp: process_key_def process_key_locked_def)

lemma process_key_in_key_pressed:
  assumes "0 \<le> k" "k \<le> KEY_MAX"
  shows "process_key p k u s \<noteq> Inl (Out_of_bounds ''key_pressed'' i)"
proof -
  have "\<exists>reg lp s1. process_key_locked k u s = Inr (reg, lp, s1)"
    using assms by (auto simp: process_key_locked_def Let_def)
  then obtain reg lp s1 where locked: "process_key_locked k u s = Inr (reg, lp, s1)"
    by blast
  show ?thesis
  proof (cases reg)
    case False
    then show ?thesis using locked by (simp add: process_key_def)
  next
    case True
    obtain a s2 where ck: "CheckKey k (NextCheckKeyIsLong lp s1) = Inr (a, s2)"
      using CheckKey_keeps [of k "NextCheckKeyIsLong lp s1"] by blast
    show ?thesis
      using True locked ck EnqueueKey_in_key_pressed [of k s2 i]
      by (cases a) (simp_all add: process_key_def)
  qed
qed

lemma process_swipe_in_key_pressed:
  "process_swipe p fd ev s \<noteq> Inl (Out_of_bounds ''key_pressed'' i)"
  unfolding process_swipe_def Let_def
  by (simp add: and_then_avoids EnqueueKey_in_key_pressed del: and_then_Inr and_then_Inl)

lemma input_callback_rel_in_key_pressed:
  "input_callback_rel p ev s \<noteq> Inl (Out_of_bounds ''key_pressed'' i)"
proof -
  have "0 \<le> KEY_DOWN" "KEY_DOWN \<le> KEY_MAX" "0 \<le> KEY_UP" "KEY_UP \<le> KEY_MAX"
    by (simp_all add: input_consts)
  then show ?thesis
    unfolding input_callback_rel_def Let_def
    by (simp add: and_then_avoids process_key_in_key_pressed del: and_then_Inr and_then_Inl)
qed

text \<open>
  C10. No access to \<^verbatim>\<open>key_pressed\<close> made while \<^verbatim>\<open>input_callback\<close> runs has its index
  outside \<open>[0, KEY_MAX]\<close>: whatever the event (or the failed read), the platform and the
  object's state, the callback does not end in an out-of-bounds access to that array.
  An \<^verbatim>\<open>EV_KEY\<close> event reaches \<^verbatim>\<open>process_key\<close> only when its unsigned 16-bit code is at
  most \<^verbatim>\<open>KEY_MAX\<close>; the trackball branch calls it with \<^verbatim>\<open>KEY_DOWN\<close> and \<^verbatim>\<open>KEY_UP\<close>;
  the policy reads the cell \<^verbatim>\<open>KEY_POWER\<close>.
\<close>

theorem key_pressed_index_in_range:
  "input_callback p fd got s \<noteq> Inl (Out_of_bounds ''key_pressed'' i)"
proof (cases got)
  case None
  then show ?thesis by (simp add: input_callback_def)
next
  case (Some ev)
  have key: "uint (ev_code ev) \<le> KEY_MAX \<Longrightarrow>
     process_key p (uint (ev_code ev)) u s' \<noteq> Inl (Out_of_bounds ''key_pressed'' i)" for u s'
    by (rule process_key_in_key_pressed) simp_all
  show ?thesis
    unfolding input_callback_def Some option.case
    by (intro and_then_avoids process_swipe_in_key_pressed)
       (auto simp: and_then_avoids input_callback_rel_in_key_pressed key
             simp del: and_then_Inr and_then_Inl)
qed

subsection \<open>The waiter's timeout\<close>

text \<open>
  One slice that runs out on an empty queue with no volume change: the counter is
  decremented, and the USB state is read only if the counter has reached zero.
\<close>

lemma idle_slice:
  assumes "key_queue_len s = 0" "v_changed s = 0"
  shows "WaitKey_loop p sysfs (timeout_wake # ws) t n 0 s =
     (if t - 1 \<noteq> 0 \<or> usb_connected (sysfs (Suc n))
      then WaitKey_loop p sysfs ws (t - 1) (Suc n) 0 s
      else Some (Inr (- 1, s)))"
proof -
  have vc: "VolumesChanged s = (False, s)"
    using assms by (simp add: VolumesChanged_def)
  have "WaitKey_loop p sysfs (timeout_wake # ws) t n 0 s = WaitKey_loop p sysfs ws t n ETIMEDOUT s"
    using assms vc by (subst WaitKey_loop.simps) (simp add: timeout_wake_def ETIMEDOUT_def)
  also have "\<dots> = (if t - 1 \<noteq> 0 \<or> usb_connected (sysfs (Suc n))
      then WaitKey_loop p sysfs ws (t - 1) (Suc n) 0 s
      else Some (Inr (- 1, s)))"
    using assms by (subst WaitKey_loop.simps) (simp add: WaitKey_take_def)
  finally show ?thesis .
qed

lemma blocked_on_empty_trace:
  "key_queue_len s = 0 \<Longrightarrow> WaitKey_loop p sysfs [] t n 0 s = None"
  by (subst WaitKey_loop.simps) (simp add: ETIMEDOUT_def)

text \<open>
  While the decremented counter is not zero, nothing but the passing of slices happens:
  after \<open>m\<close> slices with \<open>m \<le> unat (t - 1)\<close> the caller is still blocked, whatever the USB
  state file holds.
\<close>

lemma still_waiting:
  assumes "key_queue_len s = 0" "v_changed s = 0"
  shows "m \<le> unat (t - 1) \<Longrightarrow> WaitKey_loop p sysfs (replicate m timeout_wake) t n 0 s = None"
proof (induction m arbitrary: t n)
  case 0
  then show ?case using assms by (simp add: blocked_on_empty_trace)
next
  case (Suc m)
  then have nz: "t - 1 \<noteq> 0" by (auto simp: unat_eq_zero)
  then have "unat (t - 1 - 1) = unat (t - 1) - 1" by (rule unat_minus_one)
  then have "m \<le> unat (t - 1 - 1)" using Suc.prems by simp
  then have "WaitKey_loop p sysfs (replicate m timeout_wake) (t - 1) (Suc n) 0 s = None"
    by (rule Suc.IH)
  then show ?case using nz by (simp add: idle_slice [OF assms])
qed

text \<open>A counter of \<open>k + 1\<close> reaches zero after \<open>k + 1\<close> slices; the USB state is read then.\<close>

lemma countdown:
  assumes "key_queue_len s = 0" "v_changed s = 0"
  shows "unat t = Suc k \<Longrightarrow>
     WaitKey_loop p sysfs (replicate (Suc k) timeout_wake @ rest) t n 0 s =
       (if usb_connected (sysfs (n + Suc k))
        then WaitKey_loop p sysfs rest 0 (n + Suc k) 0 s
        else Some (Inr (- 1, s)))"
proof (induction k arbitrary: t n)
  case 0
  then have "t \<noteq> 0" by auto
  then have "unat (t - 1) = 0" using 0 by (simp add: unat_minus_one)
  then have "t - 1 = 0" by (simp add: unat_0_iff)
  then show ?case by (simp add: idle_slice [OF assms])
next
  case (Suc k)
  then have nz: "t \<noteq> 0" by auto
  then have u: "unat (t - 1) = Suc k" using Suc.prems by (simp add: unat_minus_one)
  then have nz1: "t - 1 \<noteq> 0" by auto
  have "WaitKey_loop p sysfs (replicate (Suc (Suc k)) timeout_wake @ rest) t n 0 s =
        WaitKey_loop p sysfs (replicate (Suc k) timeout_wake @ rest) (t - 1) (Suc n) 0 s"
    using nz1 by (simp add: idle_slice [OF assms])
  then show ?case using Suc.IH [OF u, of "Suc n"] by simp
qed

text \<open>
  With the cable not connected at the end of slice 120, \<^verbatim>\<open>WaitKey\<close> returns -1 after
  120 slices.
\<close>

lemma WaitKey_times_out:
  assumes "key_queue_len s = 0" "v_changed s = 0" "\<not> usb_connected (sysfs 120)"
  shows "WaitKey p sysfs (replicate 120 timeout_wake) s = Some (Inr (- 1, s))"
proof -
  have "unat UI_WAIT_KEY_TIMEOUT_SEC = Suc 119" by (simp add: UI_WAIT_KEY_TIMEOUT_SEC_def)
  from countdown [OF assms(1,2) this, of p sysfs "[]" 0] assms(3)
  show ?thesis by (simp add: WaitKey_def)
qed

text \<open>
  With the cable connected at the end of slice 120, the counter goes from 0 to -1 and
  stays nonzero for the next \<open>2 ^ 32 - 1\<close> slices: \<^verbatim>\<open>timeouts || usb_connected()\<close> is
  true without the second operand being evaluated, so the cable is not looked at again
  and the call does not return.
\<close>

lemma WaitKey_extension_never_probes:
  assumes "key_queue_len s = 0" "v_changed s = 0" "usb_connected (sysfs 120)" "m < 2 ^ 32"
  shows "WaitKey p sysfs (replicate (120 + m) timeout_wake) s = None"
proof -
  have "unat UI_WAIT_KEY_TIMEOUT_SEC = Suc 119" by (simp add: UI_WAIT_KEY_TIMEOUT_SEC_def)
  from countdown [OF assms(1,2) this, of p sysfs "replicate m timeout_wake" 0] assms(3)
  have "WaitKey p sysfs (replicate (120 + m) timeout_wake) s =
        WaitKey_loop p sysfs (replicate m timeout_wake) 0 120 0 s"
    by (simp add: WaitKey_def replicate_add)
  moreover have "unat (- 1 :: 32 word) = 4294967295"
    by (simp add: unsigned_minus_1_eq_mask mask_eq_exp_minus_1)
  then have "m \<le> unat (0 - 1 :: 32 word)" using assms(4) by simp
  ultimately show ?thesis using still_waiting [OF assms(1,2), of m 0 p sysfs 120] by simp
qed

text \<open>
  C3 on the code. The queue stays empty and no volume changes; the cable is connected
  for the first 120 seconds and pulled then, so that the state file reads
  \<^verbatim>\<open>DISCONNECTED\<close> at the end of slice 121 and of every later slice. After 3600 slices
  \<^verbatim>\<open>WaitKey\<close> has still not returned. (Had the cable been pulled one second earlier,
  the call would have returned -1 at the end of slice 120.)
\<close>

theorem WaitKey_keeps_waiting_after_unplug:
  "usb_connected (unplugged_after 120 120) \<and> \<not> usb_connected (unplugged_after 120 121)
   \<and> WaitKey some_platform (unplugged_after 120) (replicate 3600 timeout_wake) (fresh 256) = None
   \<and> WaitKey some_platform (unplugged_after 119) (replicate 120 timeout_wake) (fresh 256)
        = Some (Inr (- 1, fresh 256))"
proof -
  have f: "key_queue_len (fresh 256) = 0" "v_changed (fresh 256) = 0"
    by (simp_all add: fresh_def RecoveryUI_def zeroed_def)
  have c: "usb_connected (unplugged_after 120 120)" "\<not> usb_connected (unplugged_after 120 121)"
     "\<not> usb_connected (unplugged_after 119 120)"
    by (simp_all add: usb_connected_def unplugged_after_def)
  have "WaitKey some_platform (unplugged_after 120) (replicate (120 + 3480) timeout_wake) (fresh 256) = None"
    using WaitKey_extension_never_probes [of "fresh 256" "unplugged_after 120" 3480 some_platform] f c(1)
    by simp
  moreover have "WaitKey some_platform (unplugged_after 119) (replicate 120 timeout_wake) (fresh 256)
        = Some (Inr (- 1, fresh 256))"
    using WaitKey_times_out [of "fresh 256" "unplugged_after 119" some_platform] f c(3) by simp
  ultimately show ?thesis using c by simp
qed

subsection \<open>The swipe thresholds\<close>

text \<open>
  The significand of the literal \<^verbatim>\<open>0.3\<close> has 53 bits and is the integer nearest to
  \<open>0.3 * 2 ^ 54\<close>.
\<close>

lemma double_0_3_nearest:
  "2 ^ 52 \<le> fst double_0_3 \<and> fst double_0_3 < 2 ^ 53 \<and>
   \<bar>10 * fst double_0_3 - 3 * 2 ^ snd double_0_3\<bar> < 5"
  by (simp add: double_0_3_def)

text \<open>
  \<open>excess_bits N\<close> leaves a quotient of at most 53 bits, and of exactly 53 bits when
  anything was cut off.
\<close>

lemma excess_bits_small: "N < 2 ^ 53 \<Longrightarrow> excess_bits N = 0"
  by (simp add: excess_bits.simps)

lemma excess_bits_upper: "0 \<le> N \<Longrightarrow> N < 2 ^ 53 * 2 ^ excess_bits N"
proof (induction N rule: excess_bits.induct)
  case (1 N)
  show ?case
  proof (cases "N < 2 ^ 53")
    case True
    then show ?thesis by (simp add: excess_bits_small)
  next
    case False
    then have k: "excess_bits N = Suc (excess_bits (N div 2))"
      by (subst excess_bits.simps) simp
    have "0 \<le> N div 2" using "1.prems" by simp
    then have "N div 2 < 2 ^ 53 * 2 ^ excess_bits (N div 2)"
      using "1.IH" False by simp
    moreover have "N = 2 * (N div 2) + N mod 2" by simp
    moreover have "N mod 2 < 2" by simp
    ultimately have "N < 2 * (2 ^ 53 * 2 ^ excess_bits (N div 2))" by linarith
    then show ?thesis by (simp add: k)
  qed
qed

lemma excess_bits_lower: "0 < excess_bits N \<Longrightarrow> 2 ^ 52 * 2 ^ excess_bits N \<le> N"
proof (induction N rule: excess_bits.induct)
  case (1 N)
  have big: "\<not> N < 2 ^ 53" using "1.prems" excess_bits_small [of N] by auto
  then have k: "excess_bits N = Suc (excess_bits (N div 2))"
    by (subst excess_bits.simps) simp
  have split: "N = 2 * (N div 2) + N mod 2" "0 \<le> N mod 2" by simp_all
  show ?case
  proof (cases "0 < excess_bits (N div 2)")
    case True
    then have "2 ^ 52 * 2 ^ excess_bits (N div 2) \<le> N div 2"
      using "1.IH" big by simp
    then have "2 * (2 ^ 52 * 2 ^ excess_bits (N div 2)) \<le> N" using split by linarith
    then show ?thesis by (simp add: k)
  next
    case False
    then have "excess_bits N = 1" using k by simp
    moreover have "2 ^ 53 \<le> N" using big by simp
    ultimately show ?thesis by simp
  qed
qed

text \<open>
  Rounding is exact below \<open>2 ^ 53\<close>, moves a number by at most half a unit of the last
  place, and goes up to a multiple of that unit that is less than half a unit above.
\<close>

lemma round_53_exact: "0 \<le> N \<Longrightarrow> N < 2 ^ 53 \<Longrightarrow> round_53 N = N"
  by (simp add: round_53_def excess_bits_small)

lemma round_53_error: "2 * \<bar>round_53 N - N\<bar> \<le> 2 ^ excess_bits N"
proof -
  define P :: int where "P = 2 ^ excess_bits N"
  define q where "q = N div P"
  define r where "r = N mod P"
  have P: "0 < P" by (simp add: P_def)
  have N: "N = q * P + r" by (simp add: q_def r_def)
  have r: "0 \<le> r" "r < P" using P by (simp_all add: r_def)
  have R: "round_53 N = (if P < 2 * r \<or> (2 * r = P \<and> odd q) then q + 1 else q) * P"
    by (simp add: round_53_def Let_def P_def q_def r_def)
  show ?thesis
    unfolding R P_def [symmetric] using N r by (auto simp: algebra_simps)
qed

lemma round_53_up:
  assumes "(2::int) ^ excess_bits N dvd T" "N < T" "2 * (T - N) < 2 ^ excess_bits N"
  shows "round_53 N = T"
proof -
  define P :: int where "P = 2 ^ excess_bits N"
  have P: "0 < P" by (simp add: P_def)
  obtain c where T: "T = c * P" using assms(1) by (auto simp: P_def dvd_def mult.commute)
  define d where "d = T - N"
  have d: "0 < d" "2 * d < P" using assms by (simp_all add: d_def P_def)
  have N: "N = P * (c - 1) + (P - d)" by (simp add: d_def T algebra_simps)
  have q: "N div P = c - 1" using d P by (intro int_div_pos_eq [OF N]) simp_all
  have r: "N mod P = P - d" using d P by (intro int_mod_pos_eq [OF N]) simp_all
  have "round_53 N = (if P < 2 * (P - d) \<or> (2 * (P - d) = P \<and> odd (c - 1)) then (c - 1) + 1 else c - 1) * P"
    by (simp add: round_53_def Let_def P_def [symmetric] q r)
  also have "\<dots> = c * P" using d by simp
  finally show ?thesis by (simp add: T)
qed

text \<open>
  The two products of \<^verbatim>\<open>set_min_swipe_lengths\<close>, for a density \<open>0 < d < 2 ^ 31\<close>:
  \<^verbatim>\<open>(int)(0.5 * d)\<close> is \<open>d div 2\<close> and \<^verbatim>\<open>(int)(0.3 * d)\<close> is \<open>3 * d div 10\<close>. Where
  \<open>3 * d\<close> is a multiple of 10, the exact product lies just below the integer and the
  rounding of the multiplication brings it up to it.
\<close>

lemma half_truncated:
  assumes "0 < d" "d < 2 ^ 31"
  shows "double_times_to_int double_0_5 d = d div 2"
proof -
  have "round_53 d = d" using assms by (intro round_53_exact) simp_all
  then show ?thesis by (simp add: double_times_to_int_def double_0_5_def)
qed

lemma three_tenths_truncated:
  assumes "0 < d" "d < 2 ^ 31"
  shows "double_times_to_int double_0_3 d = (3 * d) div 10"
proof -
  define N where "N = 5404319552844595 * d"
  define P :: int where "P = 2 ^ excess_bits N"
  define R where "R = round_53 N"
  define n where "n = (3 * d) div 10"
  define f where "f = (3 * d) mod 10"
  have d3: "3 * d = 10 * n + f" "0 \<le> f" "f \<le> 9" by (simp_all add: n_def f_def)
  have "10 * N = 18014398509481984 * (3 * d) - 2 * d" by (simp add: N_def)
  then have N10: "10 * N = 180143985094819840 * n + 18014398509481984 * f - 2 * d"
    unfolding d3(1) by simp
  have Npos: "0 \<le> N" using assms by (simp add: N_def)
  have abs_err: "2 * \<bar>R - N\<bar> \<le> P" unfolding R_def P_def by (rule round_53_error)
  have err1: "2 * R - 2 * N \<le> P" using abs_err by (simp add: abs_if split: if_splits)
  have err2: "2 * N - 2 * R \<le> P" using abs_err by (simp add: abs_if split: if_splits)
  have dlt: "d < 2147483648" using assms by simp
  have Ppos: "0 < P" by (simp add: P_def)
  have upper: "N < 9007199254740992 * P"
    using excess_bits_upper [OF Npos] by (simp add: P_def)
  have Pbound: "P \<le> 4294967296"
  proof (cases "excess_bits N = 0")
    case True
    then show ?thesis by (simp add: P_def)
  next
    case False
    then have "4503599627370496 * P \<le> N"
      using excess_bits_lower [of N] by (simp add: P_def)
    moreover have "N \<le> 5404319552844595 * 2147483648" using dlt by (simp add: N_def)
    ultimately show ?thesis by linarith
  qed
  have hi: "R < 18014398509481984 * n + 18014398509481984"
    using err1 N10 d3(3) assms(1) Pbound by linarith
  have lo: "18014398509481984 * n \<le> R"
  proof (cases "f = 0")
    case False
    then have "1 \<le> f" using d3 by simp
    then show ?thesis using err2 N10 dlt Pbound by linarith
  next
    case True
    define T where "T = 18014398509481984 * n"
    have NT: "10 * N = 10 * T - 2 * d" using N10 True by (simp add: T_def)
    have d10: "3 * d = 10 * n" using d3 True by simp
    have "N < T" using NT assms(1) by linarith
    moreover have "2 * (T - N) < P"
    proof -
      have "10 * T = 54043195528445952 * d" using d10 by (simp add: T_def)
      then have "2 * T - 2 * N < P" using NT upper assms(1) by linarith
      then show ?thesis by simp
    qed
    moreover have "(2::int) ^ excess_bits N dvd T"
    proof -
      have "excess_bits N \<le> 32"
        using power_le_imp_le_exp [of "2::int" "excess_bits N" 32] Pbound by (simp add: P_def)
      then have "(2::int) ^ excess_bits N dvd 2 ^ 54" by (intro le_imp_power_dvd) simp
      then show ?thesis unfolding T_def by simp
    qed
    ultimately have "R = T"
      unfolding R_def P_def by (intro round_53_up)
    then show ?thesis by (simp add: T_def)
  qed
  have "R div 18014398509481984 = n"
    using lo hi by (intro int_div_pos_eq [of R _ n "R - 18014398509481984 * n"]) simp_all
  then show ?thesis
    by (simp add: double_times_to_int_def double_0_3_def R_def N_def n_def)
qed

lemma atoi_missing: "props key = None \<Longrightarrow> atoi (property_get props key ''0'') = 0"
  by (simp add: property_get_def atoi_def isspace_def isdigit_def)

lemma Init_thresholds [simp]:
  "min_x_swipe_px (Init props s) = min_x_swipe_px (set_min_swipe_lengths props s)"
  "min_y_swipe_px (Init props s) = min_y_swipe_px (set_min_swipe_lengths props s)"
  by (simp_all add: Init_def log_call_def)

text \<open>
  C8, as the source has it. Let \<open>d\<close> be what \<^verbatim>\<open>atoi\<close> makes of the density property
  (with \<^verbatim>\<open>"0"\<close> for a missing or empty property), \<open>d < 2 ^ 31\<close>. After the constructor
  and \<^verbatim>\<open>Init\<close>: when \<open>d\<close> is positive, \<^verbatim>\<open>min_x_swipe_px\<close> is \<open>d div 2\<close> and
  \<^verbatim>\<open>min_y_swipe_px\<close> is \<open>3 * d div 10\<close>, the products \<open>0.5 * d\<close> and \<open>0.3 * d\<close> truncated
  towards zero; otherwise the constructor's defaults 100 and 80 are kept. A missing
  property gives \<open>d = 0\<close>.
\<close>

theorem swipe_thresholds_from_density:
  assumes "d = atoi (property_get props ''ro.sf.lcd_density'' ''0'')" "d < 2 ^ 31"
  shows "min_x_swipe_px (Init props (RecoveryUI raw)) = (if 0 < d then d div 2 else 100)
       \<and> min_y_swipe_px (Init props (RecoveryUI raw)) = (if 0 < d then (3 * d) div 10 else 80)
       \<and> (props ''ro.sf.lcd_density'' = None \<longrightarrow> d = 0)"
proof (cases "0 < d")
  case True
  then have "double_times_to_int double_0_5 d = d div 2"
      "double_times_to_int double_0_3 d = (3 * d) div 10"
    using assms(2) by (simp_all add: half_truncated three_tenths_truncated)
  then show ?thesis
    using True assms(1) atoi_missing [of props "''ro.sf.lcd_density''"]
    by (auto simp: set_min_swipe_lengths_def Let_def)
next
  case False
  then show ?thesis
    using assms(1) atoi_missing [of props "''ro.sf.lcd_density''"]
    by (auto simp: set_min_swipe_lengths_def Let_def RecoveryUI_def)
qed

lemma atoi_213: "atoi ''213'' = 213"
  by (simp add: atoi_def isspace_def isdigit_def)

lemma atoi_0: "atoi ''0'' = 0"
  by (simp add: atoi_def isspace_def isdigit_def)

text \<open>The theorem for a density of 213 and for an empty property store.\<close>

theorem swipe_thresholds_from_density_witness:
  "min_x_swipe_px (Init density_213 (RecoveryUI (zeroed 256))) = 106
   \<and> min_y_swipe_px (Init density_213 (RecoveryUI (zeroed 256))) = 63
   \<and> min_x_swipe_px (Init Map.empty (RecoveryUI (zeroed 256))) = 100
   \<and> min_y_swipe_px (Init Map.empty (RecoveryUI (zeroed 256))) = 80"
  using swipe_thresholds_from_density [of 213 density_213 "zeroed 256"]
        swipe_thresholds_from_density [of 0 Map.empty "zeroed 256"]
  by (simp add: density_213_def property_get_def atoi_213 atoi_0)

text \<open>
  C8 as stated fails: at 213 dpi the thresholds are 106 and 63, while \<open>0.5 * 213 = 106.5\<close>
  rounds to 107 and \<open>0.3 * 213 = 63.9\<close> rounds to 64.
\<close>

theorem density_213_is_truncated:
  "min_x_swipe_px (Init density_213 (fresh 256)) = 106 \<and> round (0.5 * 213 :: real) = 107
   \<and> min_y_swipe_px (Init density_213 (fresh 256)) = 63 \<and> round (0.3 * 213 :: real) = 64"
proof -
  have "round (0.5 * 213 :: real) = 107" "round (0.3 * 213 :: real) = 64"
    by (simp_all add: round_def)
  moreover have "atoi (property_get density_213 ''ro.sf.lcd_density'' ''0'') = 213"
    by (simp add: density_213_def property_get_def atoi_213)
  moreover have "double_times_to_int double_0_5 213 = 106" "double_times_to_int double_0_3 213 = 63"
    by (simp_all add: half_truncated three_tenths_truncated)
  ultimately show ?thesis
    by (simp add: set_min_swipe_lengths_def Let_def)
qed

end
